theory Spec2Isabelle
  imports Main "HOL-Library.Word"
begin

section \<open>JavaScript values and the string conversions the client relies on\<close>

text \<open>
  The client (\<^verbatim>\<open>hyperbeam-client-example.js\<close>) works on plain JavaScript values.
  A Number is modelled when it is an integer from \<open>- (2 ^ 53)\<close> to \<open>2 ^ 53 - 1\<close>, as a
  signed word of 54 bits read by \<^verbatim>\<open>sint\<close>: each of these integers is a Number and
  prints as its decimal numeral (fractions, and the exponent form that Numbers from
  \<open>10 ^ 21\<close> on print in, are outside the model). A string is the list of its
  characters (of its bytes, beyond ASCII), an array a list. An object is a plain object, with the
  prototype \<^verbatim>\<open>Object.prototype\<close> and data properties only, given by the list of its own
  enumerable entries in the order \<^verbatim>\<open>Object.entries\<close> yields them, which is the order
  of insertion for keys that are not array indices. There are no function values, so no
  property of such an object is callable.
\<close>

datatype jsval =
    JUndefined
  | JNull
  | JBool bool
  | JNum "54 word"
  | JStr string
  | JArr "jsval list"
  | JObj "(string \<times> jsval) list"

text \<open>A thrown value: an error object with its \<^verbatim>\<open>name\<close> and \<^verbatim>\<open>message\<close>.\<close>

datatype jserror = JsError (err_name: string) (err_message: string)

type_synonym 'a result = "jserror + 'a"

definition Error :: "string \<Rightarrow> jserror" where
  "Error msg = JsError ''Error'' msg"

definition TypeError :: "string \<Rightarrow> jserror" where
  "TypeError msg = JsError ''TypeError'' msg"

subsection \<open>Decimal numerals\<close>

definition digit_char :: "nat \<Rightarrow> char" where
  "digit_char d = ''0123456789'' ! (d mod 10)"

fun show_nat :: "nat \<Rightarrow> string" where
  "show_nat n = (if n < 10 then [digit_char n] else show_nat (n div 10) @ [digit_char n])"

declare show_nat.simps [simp del]

definition show_int :: "int \<Rightarrow> string" where
  "show_int i = (if i < 0 then CHR ''-'' # show_nat (nat (- i)) else show_nat (nat i))"

text \<open>\<^verbatim>\<open>Number.prototype.toString\<close> and \<^verbatim>\<open>Boolean.prototype.toString\<close>.\<close>

definition number_toString :: "54 word \<Rightarrow> string" where
  "number_toString n = show_int (sint n)"

definition boolean_toString :: "bool \<Rightarrow> string" where
  "boolean_toString b = (if b then ''true'' else ''false'')"

subsection \<open>\<^verbatim>\<open>Array.prototype.join\<close>, \<^verbatim>\<open>String(v)\<close> and \<^verbatim>\<open>typeof\<close>\<close>

fun join_strings :: "string \<Rightarrow> string list \<Rightarrow> string" where
  "join_strings sep [] = []"
| "join_strings sep [s] = s"
| "join_strings sep (s # t # ts) = s @ sep @ join_strings sep (t # ts)"

text \<open>
  The results of conversions made one after the other: the first one that throws ends
  the run with its error.
\<close>

fun collect :: "'a result list \<Rightarrow> 'a list result" where
  "collect [] = Inr []"
| "collect (Inl e # rs) = Inl e"
| "collect (Inr x # rs) = (case collect rs of Inl e \<Rightarrow> Inl e | Inr xs \<Rightarrow> Inr (x # xs))"

text \<open>
  \<^verbatim>\<open>String(v)\<close>, which is also what a template literal applies to an interpolated
  value and \<^verbatim>\<open>join\<close> to an element. An array prints as its elements joined by a
  comma, where \<^verbatim>\<open>undefined\<close> and \<^verbatim>\<open>null\<close> elements print as the empty string. An
  object is converted by its \<^verbatim>\<open>toString\<close> method, then by its \<^verbatim>\<open>valueOf\<close> method: an
  object without an own property \<^verbatim>\<open>toString\<close> inherits the one of
  \<^verbatim>\<open>Object.prototype\<close> and prints as \<^verbatim>\<open>[object Object]\<close>; an own property
  \<^verbatim>\<open>toString\<close> is not callable, neither is an own \<^verbatim>\<open>valueOf\<close>, and the inherited
  \<^verbatim>\<open>valueOf\<close> returns the object itself, so the conversion throws a \<^verbatim>\<open>TypeError\<close>
  (the message is that of V8).
\<close>

fun ToString :: "jsval \<Rightarrow> string result" where
  "ToString JUndefined = Inr ''undefined''"
| "ToString JNull = Inr ''null''"
| "ToString (JBool b) = Inr (boolean_toString b)"
| "ToString (JNum n) = Inr (number_toString n)"
| "ToString (JStr s) = Inr s"
| "ToString (JArr xs) =
     (case collect (map (\<lambda>x. if x = JUndefined \<or> x = JNull then Inr [] else ToString x) xs) of
        Inl e \<Rightarrow> Inl e
      | Inr ss \<Rightarrow> Inr (join_strings '','' ss))"
| "ToString (JObj kvs) =
     (if ''toString'' \<in> set (map fst kvs)
      then Inl (TypeError ''Cannot convert object to primitive value'')
      else Inr ''[object Object]'')"

definition array_join :: "jsval list \<Rightarrow> string \<Rightarrow> string result" where
  "array_join xs sep =
     (case collect (map (\<lambda>x. if x = JUndefined \<or> x = JNull then Inr [] else ToString x) xs) of
        Inl e \<Rightarrow> Inl e
      | Inr ss \<Rightarrow> Inr (join_strings sep ss))"

definition typeof :: "jsval \<Rightarrow> string" where
  "typeof v = (case v of
       JUndefined \<Rightarrow> ''undefined''
     | JNull \<Rightarrow> ''object''
     | JBool b \<Rightarrow> ''boolean''
     | JNum n \<Rightarrow> ''number''
     | JStr s \<Rightarrow> ''string''
     | JArr xs \<Rightarrow> ''object''
     | JObj kvs \<Rightarrow> ''object'')"

subsection \<open>\<^verbatim>\<open>URLSearchParams\<close>\<close>

text \<open>
  \<^verbatim>\<open>URLSearchParams.prototype.toString\<close> is the
  \<^verbatim>\<open>application/x-www-form-urlencoded\<close> serializer of the URL standard: in names
  and values every byte other than an ASCII letter or digit and \<^verbatim>\<open>* - . _\<close> is
  percent-encoded with upper-case hexadecimal digits, except the space, which becomes
  \<^verbatim>\<open>+\<close>; a name and its value are joined by \<^verbatim>\<open>=\<close> and the pairs by \<^verbatim>\<open>&\<close>.
\<close>

definition form_safe :: "char \<Rightarrow> bool" where
  "form_safe c = (c \<in> set
     ''ABCDEFGHIJKLMNOPQRSTUVWXYZabcdefghijklmnopqrstuvwxyz0123456789*-._'')"

definition hex_char :: "nat \<Rightarrow> char" where
  "hex_char d = ''0123456789ABCDEF'' ! (d mod 16)"

definition form_encode_char :: "char \<Rightarrow> string" where
  "form_encode_char c =
     (if form_safe c then [c]
      else if c = CHR '' '' then ''+''
      else [CHR ''%'', hex_char (of_char c div 16), hex_char (of_char c)])"

definition form_encode :: "string \<Rightarrow> string" where
  "form_encode s = concat (map form_encode_char s)"

type_synonym search_params = "(string \<times> string) list"

definition append_param :: "search_params \<Rightarrow> string \<Rightarrow> string \<Rightarrow> search_params" where
  "append_param q name val = q @ [(name, val)]"

definition params_toString :: "search_params \<Rightarrow> string" where
  "params_toString q =
     join_strings ''&'' (map (\<lambda>(n, v). form_encode n @ ''='' @ form_encode v) q)"

section \<open>\<^verbatim>\<open>HyperBEAMUtils\<close>\<close>

text \<open>
  \<^verbatim>\<open>createTypedQuery(params)\<close>: one loop iteration appends one parameter to the
  \<^verbatim>\<open>URLSearchParams\<close>. The branches in the order of the source: a number
  (\<^verbatim>\<open>typeof value === 'number'\<close>), an array, any other value whose \<^verbatim>\<open>typeof\<close> is
  \<^verbatim>\<open>'object'\<close>, which is a plain object or \<^verbatim>\<open>null\<close>, and the rest.
  \<^verbatim>\<open>value.join(',')\<close> and the template literal \<^verbatim>\<open>`${k}=${v}`\<close> throw where the
  conversion of an element or of a value to a string throws; \<^verbatim>\<open>Object.entries(null)\<close>
  and \<^verbatim>\<open>undefined.toString()\<close> throw a \<^verbatim>\<open>TypeError\<close> (the messages are those of V8).
\<close>

definition map_entry :: "string \<times> jsval \<Rightarrow> string result" where
  "map_entry kv = (case kv of (k, v) \<Rightarrow>
     (case ToString v of Inl e \<Rightarrow> Inl e | Inr s \<Rightarrow> Inr (k @ ''='' @ s)))"

fun typed_param :: "search_params \<Rightarrow> string \<times> jsval \<Rightarrow> search_params result" where
  "typed_param q (key, JNum n) = Inr (append_param q (key @ ''+integer'') (number_toString n))"
| "typed_param q (key, JArr xs) =
     (case array_join xs '','' of
        Inl e \<Rightarrow> Inl e
      | Inr joined \<Rightarrow> Inr (append_param q (key @ ''+list'') joined))"
| "typed_param q (key, JObj kvs) =
     (case collect (map map_entry kvs) of
        Inl e \<Rightarrow> Inl e
      | Inr entries \<Rightarrow> Inr (append_param q (key @ ''+map'') (join_strings '';'' entries)))"
| "typed_param q (key, JNull) = Inl (TypeError ''Cannot convert undefined or null to object'')"
| "typed_param q (key, JUndefined) =
     Inl (TypeError ''Cannot read properties of undefined (reading 'toString')'')"
| "typed_param q (key, JBool b) = Inr (append_param q key (boolean_toString b))"
| "typed_param q (key, JStr s) = Inr (append_param q key s)"

fun typed_params :: "search_params \<Rightarrow> (string \<times> jsval) list \<Rightarrow> search_params result" where
  "typed_params q [] = Inr q"
| "typed_params q (kv # rest) =
     (case typed_param q kv of Inl e \<Rightarrow> Inl e | Inr q' \<Rightarrow> typed_params q' rest)"

definition createTypedQuery :: "(string \<times> jsval) list \<Rightarrow> string result" where
  "createTypedQuery params =
     (case typed_params [] params of Inl e \<Rightarrow> Inl e | Inr q \<Rightarrow> Inr (params_toString q))"

text \<open>
  \<^verbatim>\<open>buildPath(device, path = '', params = {})\<close>: the query string is placed directly
  after the device and the path after the query.
\<close>

definition buildPath :: "string \<Rightarrow> string \<Rightarrow> (string \<times> jsval) list \<Rightarrow> string result" where
  "buildPath device path params =
     (case (if length params > 0
            then (case createTypedQuery params of Inl e \<Rightarrow> Inl e | Inr q \<Rightarrow> Inr (''?'' @ q))
            else Inr [])
      of Inl e \<Rightarrow> Inl e
       | Inr query \<Rightarrow> Inr (''/'' @ device @ query @ (if path \<noteq> [] then ''/'' @ path else [])))"

section \<open>The platform: requests, responses, the console and timers\<close>

type_synonym headers = "(string \<times> string) list"

text \<open>
  Object spread \<^verbatim>\<open>{...a, ...b}\<close>: the entries of each source are assigned in order; an
  existing key keeps its position and takes the new value, a new key is added at the end.
\<close>

fun set_prop :: "string \<Rightarrow> 'v \<Rightarrow> (string \<times> 'v) list \<Rightarrow> (string \<times> 'v) list" where
  "set_prop k v [] = [(k, v)]"
| "set_prop k v ((k', v') # m) = (if k = k' then (k, v) # m else (k', v') # set_prop k v m)"

definition spread :: "(string \<times> 'v) list \<Rightarrow> (string \<times> 'v) list \<Rightarrow> (string \<times> 'v) list" where
  "spread target source = fold (\<lambda>(k, v). set_prop k v) source target"

record request =
  http_method :: string
  url :: string
  req_headers :: headers
  body :: "string option"
  timeout_ms :: nat

text \<open>
  A response as \<^verbatim>\<open>fetch\<close> delivers it. \<^verbatim>\<open>json_body\<close> and \<^verbatim>\<open>text_body\<close> are what
  \<^verbatim>\<open>response.json()\<close> and \<^verbatim>\<open>response.text()\<close> settle to; \<^verbatim>\<open>content_type\<close> is
  \<^verbatim>\<open>response.headers.get('content-type')\<close>, \<^verbatim>\<open>None\<close> for \<^verbatim>\<open>null\<close>.
\<close>

record response =
  status :: nat
  statusText :: string
  content_type :: "string option"
  json_body :: "jsval result"
  text_body :: "string result"

text \<open>\<^verbatim>\<open>response.ok\<close> is true exactly for a status in the range 200 to 299.\<close>

definition ok :: "response \<Rightarrow> bool" where
  "ok r = (200 \<le> status r \<and> status r \<le> 299)"

datatype event =
    Fetch request
  | ReadJson
  | ReadText
  | ConsoleError string jserror
  | ConsoleWarn string string
  | Sleep nat
  | Call nat jsval

text \<open>
  The state of the platform: the trace of effects so far and the active interval timers
  (handle to interval). The node is a function from the number of requests already
  issued and the request to what \<^verbatim>\<open>fetch\<close> settles to: a response, or a rejection
  (network failure, or the abort of \<^verbatim>\<open>AbortSignal.timeout\<close>).
\<close>

record world =
  trace :: "event list"
  timers :: "nat \<rightharpoonup> nat"
  next_timer :: nat

type_synonym server = "nat \<Rightarrow> request \<Rightarrow> response result"

fun is_fetch :: "event \<Rightarrow> bool" where
  "is_fetch (Fetch r) = True"
| "is_fetch e = False"

definition fetch_count :: "world \<Rightarrow> nat" where
  "fetch_count w = length (filter is_fetch (trace w))"

definition emit :: "event \<Rightarrow> world \<Rightarrow> world" where
  "emit e w = w\<lparr>trace := trace w @ [e]\<rparr>"

definition fetch :: "server \<Rightarrow> request \<Rightarrow> world \<Rightarrow> response result \<times> world" where
  "fetch srv req w = (srv (fetch_count w) req, emit (Fetch req) w)"

definition response_json :: "response \<Rightarrow> world \<Rightarrow> jsval result \<times> world" where
  "response_json r w = (json_body r, emit ReadJson w)"

definition response_text :: "response \<Rightarrow> world \<Rightarrow> jsval result \<times> world" where
  "response_text r w =
     ((case text_body r of Inl e \<Rightarrow> Inl e | Inr s \<Rightarrow> Inr (JStr s)), emit ReadText w)"

definition console_error :: "string \<Rightarrow> jserror \<Rightarrow> world \<Rightarrow> world" where
  "console_error label e w = emit (ConsoleError label e) w"

definition console_warn :: "string \<Rightarrow> string \<Rightarrow> world \<Rightarrow> world" where
  "console_warn label msg w = emit (ConsoleWarn label msg) w"

definition sleep :: "nat \<Rightarrow> world \<Rightarrow> world" where
  "sleep ms w = emit (Sleep ms) w"

text \<open>
  \<^verbatim>\<open>setInterval\<close> returns a fresh handle, which is truthy (a positive integer in a
  browser, an object in Node), so that \<^verbatim>\<open>if (this.pollingInterval)\<close> tests for
  \<^verbatim>\<open>null\<close>. \<^verbatim>\<open>clearInterval\<close> of a handle that is not active does nothing.
\<close>

definition setInterval :: "nat \<Rightarrow> world \<Rightarrow> nat \<times> world" where
  "setInterval ms w =
     (next_timer w, w\<lparr>timers := (timers w)(next_timer w \<mapsto> ms), next_timer := Suc (next_timer w)\<rparr>)"

definition clearInterval :: "nat \<Rightarrow> world \<Rightarrow> world" where
  "clearInterval h w = w\<lparr>timers := (timers w)(h := None)\<rparr>"

subsection \<open>\<^verbatim>\<open>String.prototype.includes\<close> and \<^verbatim>\<open>JSON.stringify\<close>\<close>

fun starts_with :: "string \<Rightarrow> string \<Rightarrow> bool" where
  "starts_with s [] = True"
| "starts_with [] (c # cs) = False"
| "starts_with (x # xs) (c # cs) = (x = c \<and> starts_with xs cs)"

fun str_includes :: "string \<Rightarrow> string \<Rightarrow> bool" where
  "str_includes [] t = (t = [])"
| "str_includes (x # xs) t = (starts_with (x # xs) t \<or> str_includes xs t)"

definition lower_hex_char :: "nat \<Rightarrow> char" where
  "lower_hex_char d = ''0123456789abcdef'' ! (d mod 16)"

text \<open>
  \<^verbatim>\<open>QuoteJSONString\<close>: the double quote (0x22) and the backslash (0x5C) are escaped
  with a backslash, the control characters below 0x20 by their short escape or as
  \<^verbatim>\<open>\u00XX\<close>.
\<close>

definition json_escape_char :: "char \<Rightarrow> string" where
  "json_escape_char c =
     (if c = CHR 0x22 then [CHR 0x5C, CHR 0x22]
      else if c = CHR 0x5C then [CHR 0x5C, CHR 0x5C]
      else if c = CHR 0x08 then [CHR 0x5C, CHR ''b'']
      else if c = CHR 0x09 then [CHR 0x5C, CHR ''t'']
      else if c = CHR 0x0A then [CHR 0x5C, CHR ''n'']
      else if c = CHR 0x0C then [CHR 0x5C, CHR ''f'']
      else if c = CHR 0x0D then [CHR 0x5C, CHR ''r'']
      else if (of_char c :: nat) < 32 then
        [CHR 0x5C, CHR ''u'', CHR ''0'', CHR ''0'',
         lower_hex_char (of_char c div 16), lower_hex_char (of_char c)]
      else [c])"

definition json_quote :: "string \<Rightarrow> string" where
  "json_quote s = CHR 0x22 # concat (map json_escape_char s) @ [CHR 0x22]"

text \<open>
  \<^verbatim>\<open>JSON.stringify(v)\<close>; \<^verbatim>\<open>None\<close> is the result \<^verbatim>\<open>undefined\<close>. An
  \<^verbatim>\<open>undefined\<close> array element is written \<^verbatim>\<open>null\<close>, a property whose value is
  \<^verbatim>\<open>undefined\<close> is left out.
\<close>

fun JSON_stringify :: "jsval \<Rightarrow> string option" where
  "JSON_stringify JUndefined = None"
| "JSON_stringify JNull = Some ''null''"
| "JSON_stringify (JBool b) = Some (boolean_toString b)"
| "JSON_stringify (JNum n) = Some (number_toString n)"
| "JSON_stringify (JStr s) = Some (json_quote s)"
| "JSON_stringify (JArr xs) =
     Some (''['' @ join_strings '',''
             (map (\<lambda>x. case JSON_stringify x of None \<Rightarrow> ''null'' | Some s \<Rightarrow> s) xs) @ '']'')"
| "JSON_stringify (JObj kvs) =
     Some (''{'' @ join_strings '',''
             (concat (map (\<lambda>(k, v). case JSON_stringify v of
                                        None \<Rightarrow> []
                                      | Some s \<Rightarrow> [json_quote k @ '':'' @ s]) kvs)) @ ''}'')"

section \<open>\<^verbatim>\<open>HyperBEAMClient\<close>\<close>

record client =
  nodeUrl :: string
  defaultHeaders :: headers
  timeout :: nat

record client_options =
  opt_nodeUrl :: "string option"
  opt_defaultHeaders :: "headers option"
  opt_timeout :: "nat option"

text \<open>The constructor: an absent or falsy option takes its default.\<close>

definition new_client :: "client_options \<Rightarrow> client" where
  "new_client options =
     \<lparr>nodeUrl = (case opt_nodeUrl options of
                   Some u \<Rightarrow> if u \<noteq> [] then u else ''http://localhost:10000''
                 | None \<Rightarrow> ''http://localhost:10000''),
      defaultHeaders = (case opt_defaultHeaders options of Some h \<Rightarrow> h | None \<Rightarrow> []),
      timeout = (case opt_timeout options of
                   Some t \<Rightarrow> if t \<noteq> 0 then t else 30000
                 | None \<Rightarrow> 30000)\<rparr>"

record req_options =
  opt_headers :: "headers option"
  debug :: bool

definition no_options :: req_options where
  "no_options = \<lparr>opt_headers = None, debug = False\<rparr>"

definition spread_opt :: "headers \<Rightarrow> headers option \<Rightarrow> headers" where
  "spread_opt target source = (case source of None \<Rightarrow> target | Some h \<Rightarrow> spread target h)"

text \<open>
  \<^verbatim>\<open>get(path, options = {})\<close>. The part up to \<^verbatim>\<open>await fetch(...)\<close> builds the
  request; \<^verbatim>\<open>get_finish\<close> is the rest of the \<^verbatim>\<open>try\<close> block and the \<^verbatim>\<open>catch\<close>,
  run on what \<^verbatim>\<open>fetch\<close> settled to.
\<close>

definition get_request :: "client \<Rightarrow> string \<Rightarrow> req_options \<Rightarrow> request" where
  "get_request c path options =
     \<lparr>http_method = ''GET'',
      url = nodeUrl c @ path,
      req_headers = spread_opt (spread [] (defaultHeaders c)) (opt_headers options),
      body = None,
      timeout_ms = timeout c\<rparr>"

definition get_finish ::
  "client \<Rightarrow> string \<Rightarrow> req_options \<Rightarrow> response result \<Rightarrow> world \<Rightarrow> jsval result \<times> world" where
  "get_finish c path options fetched w =
     (let url = nodeUrl c @ path;
          (res, w1) =
            (case fetched of
               Inl e \<Rightarrow> (Inl e, w)
             | Inr response \<Rightarrow>
                 if \<not> ok response then
                   (Inl (Error (''HTTP '' @ show_nat (status response) @ '': ''
                                @ statusText response)), w)
                 else
                   (case content_type response of
                      Some contentType \<Rightarrow>
                        if contentType \<noteq> [] \<and> str_includes contentType ''application/json''
                        then response_json response w
                        else response_text response w
                    | None \<Rightarrow> response_text response w))
      in case res of
           Inl error \<Rightarrow>
             (Inl error,
              if debug options then console_error (''GET '' @ url @ '' failed:'') error w1
              else w1)
         | Inr v \<Rightarrow> (Inr v, w1))"

definition get ::
  "server \<Rightarrow> client \<Rightarrow> string \<Rightarrow> req_options \<Rightarrow> world \<Rightarrow> jsval result \<times> world" where
  "get srv c path options w =
     (let (fetched, w1) = fetch srv (get_request c path options) w
      in get_finish c path options fetched w1)"

text \<open>
  \<^verbatim>\<open>post(path, data = {}, options = {})\<close>: an \<^verbatim>\<open>undefined\<close> payload takes the
  default \<^verbatim>\<open>{}\<close>.
\<close>

definition post_request :: "client \<Rightarrow> string \<Rightarrow> jsval \<Rightarrow> req_options \<Rightarrow> request" where
  "post_request c path data0 options =
     (let data = (if data0 = JUndefined then JObj [] else data0)
      in \<lparr>http_method = ''POST'',
          url = nodeUrl c @ path,
          req_headers =
            spread_opt (spread [(''Content-Type'', ''application/json'')] (defaultHeaders c))
              (opt_headers options),
          body = (case data of JStr text \<Rightarrow> Some text | _ \<Rightarrow> JSON_stringify data),
          timeout_ms = timeout c\<rparr>)"

definition post_finish ::
  "client \<Rightarrow> string \<Rightarrow> req_options \<Rightarrow> response result \<Rightarrow> world \<Rightarrow> jsval result \<times> world" where
  "post_finish c path options fetched w =
     (let url = nodeUrl c @ path;
          (res, w1) =
            (case fetched of
               Inl e \<Rightarrow> (Inl e, w)
             | Inr response \<Rightarrow>
                 if \<not> ok response then
                   (Inl (Error (''HTTP '' @ show_nat (status response) @ '': ''
                                @ statusText response)), w)
                 else
                   (case content_type response of
                      Some contentType \<Rightarrow>
                        if contentType \<noteq> [] \<and> str_includes contentType ''application/json''
                        then response_json response w
                        else response_text response w
                    | None \<Rightarrow> response_text response w))
      in case res of
           Inl error \<Rightarrow>
             (Inl error,
              if debug options then console_error (''POST '' @ url @ '' failed:'') error w1
              else w1)
         | Inr v \<Rightarrow> (Inr v, w1))"

definition post ::
  "server \<Rightarrow> client \<Rightarrow> string \<Rightarrow> jsval \<Rightarrow> req_options \<Rightarrow> world \<Rightarrow> jsval result \<times> world" where
  "post srv c path data options w =
     (let (fetched, w1) = fetch srv (post_request c path data options) w
      in post_finish c path options fetched w1)"

definition getNodeInfo :: "server \<Rightarrow> client \<Rightarrow> world \<Rightarrow> jsval result \<times> world" where
  "getNodeInfo srv c w = get srv c ''/~meta@1.0/info'' no_options w"

section \<open>\<^verbatim>\<open>ProcessClient\<close>\<close>

record process_client =
  pc_client :: client
  processId :: string
  basePath :: string

definition process :: "client \<Rightarrow> string \<Rightarrow> process_client" where
  "process c pid =
     \<lparr>pc_client = c, processId = pid, basePath = ''/'' @ pid @ ''~process@1.0''\<rparr>"

definition getCurrentState :: "server \<Rightarrow> process_client \<Rightarrow> world \<Rightarrow> jsval result \<times> world" where
  "getCurrentState srv p w = get srv (pc_client p) (basePath p @ ''/now'') no_options w"

definition getCachedState :: "server \<Rightarrow> process_client \<Rightarrow> world \<Rightarrow> jsval result \<times> world" where
  "getCachedState srv p w = get srv (pc_client p) (basePath p @ ''/compute'') no_options w"

definition getSchedule :: "server \<Rightarrow> process_client \<Rightarrow> world \<Rightarrow> jsval result \<times> world" where
  "getSchedule srv p w = get srv (pc_client p) (basePath p @ ''/schedule'') no_options w"

definition cache_path :: "process_client \<Rightarrow> string \<Rightarrow> string" where
  "cache_path p key =
     (if key \<noteq> [] then basePath p @ ''/compute/cache/'' @ key
      else basePath p @ ''/compute/cache'')"

definition getCacheData ::
  "server \<Rightarrow> process_client \<Rightarrow> string \<Rightarrow> world \<Rightarrow> jsval result \<times> world" where
  "getCacheData srv p key w = get srv (pc_client p) (cache_path p key) no_options w"

definition getData ::
  "server \<Rightarrow> process_client \<Rightarrow> string \<Rightarrow> world \<Rightarrow> jsval result \<times> world" where
  "getData srv p path w = get srv (pc_client p) (basePath p @ ''/compute/'' @ path) no_options w"

text \<open>\<^verbatim>\<open>sendMessage(action, data = {}, headers = {})\<close>.\<close>

definition sendMessage_options :: "string \<Rightarrow> headers \<Rightarrow> req_options" where
  "sendMessage_options action hdrs =
     \<lparr>opt_headers = Some (spread [(''Action'', action)] hdrs), debug = False\<rparr>"

definition sendMessage ::
  "server \<Rightarrow> process_client \<Rightarrow> string \<Rightarrow> jsval \<Rightarrow> headers \<Rightarrow> world \<Rightarrow> jsval result \<times> world" where
  "sendMessage srv p action data0 hdrs w =
     (let data = (if data0 = JUndefined then JObj [] else data0)
      in post srv (pc_client p) (basePath p @ ''/schedule'') data
           (sendMessage_options action hdrs) w)"

text \<open>
  \<^verbatim>\<open>waitForStateChange(checkFunction, maxAttempts = 10, interval = 2000)\<close>. The
  predicate returns a truth value or throws. \<^verbatim>\<open>attempt\<close> is one iteration of the
  \<^verbatim>\<open>for\<close> loop: it ends the call with a result (\<^verbatim>\<open>Some\<close>) or goes on to the next
  iteration (\<^verbatim>\<open>None\<close>). The \<^verbatim>\<open>catch\<close> covers the fetch and the predicate; inside the
  loop \<^verbatim>\<open>i === maxAttempts - 1\<close> is \<open>Suc i = maxAttempts\<close>.
\<close>

definition attempt ::
  "server \<Rightarrow> process_client \<Rightarrow> (jsval \<Rightarrow> bool result) \<Rightarrow> nat \<Rightarrow> nat \<Rightarrow> nat \<Rightarrow> world
     \<Rightarrow> jsval result option \<times> world" where
  "attempt srv p checkFunction maxAttempts interval i w =
     (let (fetched, w1) = getCurrentState srv p w;
          tried = (case fetched of
                     Inl e \<Rightarrow> Inl e
                   | Inr state \<Rightarrow>
                       (case checkFunction state of
                          Inl e \<Rightarrow> Inl e
                        | Inr b \<Rightarrow> Inr (state, b)))
      in case tried of
           Inr (state, b) \<Rightarrow>
             if b then (Some (Inr state), w1) else (None, sleep interval w1)
         | Inl error \<Rightarrow>
             (let w2 = console_warn (''Attempt '' @ show_nat (i + 1) @ '' failed:'')
                         (err_message error) w1
              in if Suc i = maxAttempts then (Some (Inl error), w2) else (None, w2)))"

function wait_loop ::
  "server \<Rightarrow> process_client \<Rightarrow> (jsval \<Rightarrow> bool result) \<Rightarrow> nat \<Rightarrow> nat \<Rightarrow> nat \<Rightarrow> world
     \<Rightarrow> jsval result \<times> world" where
  "wait_loop srv p checkFunction maxAttempts interval i w =
     (if i < maxAttempts then
        (case attempt srv p checkFunction maxAttempts interval i w of
           (Some r, w') \<Rightarrow> (r, w')
         | (None, w') \<Rightarrow> wait_loop srv p checkFunction maxAttempts interval (Suc i) w')
      else
        (Inl (Error (''State change not detected after '' @ show_nat maxAttempts
                     @ '' attempts'')), w))"
  by pat_completeness auto
termination
  by (relation "measure (\<lambda>(srv, p, checkFunction, maxAttempts, interval, i, w). maxAttempts - i)")
     auto

declare wait_loop.simps [simp del]

definition waitForStateChange ::
  "server \<Rightarrow> process_client \<Rightarrow> (jsval \<Rightarrow> bool result) \<Rightarrow> nat option \<Rightarrow> nat option \<Rightarrow> world
     \<Rightarrow> jsval result \<times> world" where
  "waitForStateChange srv p checkFunction maxAttempts interval w =
     wait_loop srv p checkFunction
       (case maxAttempts of None \<Rightarrow> 10 | Some n \<Rightarrow> n)
       (case interval of None \<Rightarrow> 2000 | Some ms \<Rightarrow> ms) 0 w"

section \<open>\<^verbatim>\<open>ProcessDashboard\<close>\<close>

text \<open>
  A subscriber is a callback that returns (\<^verbatim>\<open>None\<close>) or throws (\<^verbatim>\<open>Some\<close>); what else
  it does is its own business and not part of the model, except that each invocation
  is recorded in the trace with the subscriber's position and the state it received.
\<close>

type_synonym callback = "jsval \<Rightarrow> jserror option"

record dashboard =
  dash_client :: client
  dash_process :: process_client
  subscribers :: "callback list"
  pollingInterval :: "nat option"

definition new_dashboard :: "client \<Rightarrow> string \<Rightarrow> dashboard" where
  "new_dashboard c pid =
     \<lparr>dash_client = c, dash_process = process c pid, subscribers = [], pollingInterval = None\<rparr>"

definition subscribe :: "callback \<Rightarrow> dashboard \<Rightarrow> dashboard" where
  "subscribe cb d = d\<lparr>subscribers := subscribers d @ [cb]\<rparr>"

text \<open>\<^verbatim>\<open>notifySubscribers(state)\<close>: the \<^verbatim>\<open>forEach\<close> with its \<^verbatim>\<open>try\<close>/\<^verbatim>\<open>catch\<close>.\<close>

fun notify_from :: "nat \<Rightarrow> callback list \<Rightarrow> jsval \<Rightarrow> world \<Rightarrow> world" where
  "notify_from i [] state w = w"
| "notify_from i (cb # cbs) state w =
     (let w1 = emit (Call i state) w;
          w2 = (case cb state of
                  None \<Rightarrow> w1
                | Some error \<Rightarrow> console_error ''Subscriber callback error:'' error w1)
      in notify_from (Suc i) cbs state w2)"

definition notifySubscribers :: "dashboard \<Rightarrow> jsval \<Rightarrow> world \<Rightarrow> world" where
  "notifySubscribers d state w = notify_from 0 (subscribers d) state w"

text \<open>The callback that \<^verbatim>\<open>startPolling\<close> hands to \<^verbatim>\<open>setInterval\<close>: one poll tick.\<close>

definition tick :: "server \<Rightarrow> dashboard \<Rightarrow> world \<Rightarrow> world" where
  "tick srv d w =
     (let (fetched, w1) = getCurrentState srv (dash_process d) w
      in case fetched of
           Inr state \<Rightarrow> notifySubscribers d state w1
         | Inl error \<Rightarrow> console_error ''Polling error:'' error w1)"

text \<open>\<^verbatim>\<open>startPolling(interval = 5000)\<close> and \<^verbatim>\<open>stopPolling()\<close>.\<close>

definition startPolling :: "nat option \<Rightarrow> dashboard \<times> world \<Rightarrow> dashboard \<times> world" where
  "startPolling interval dw = (case dw of (d, w) \<Rightarrow>
     (let w1 = (case pollingInterval d of Some h \<Rightarrow> clearInterval h w | None \<Rightarrow> w);
          (h', w2) = setInterval (case interval of None \<Rightarrow> 5000 | Some ms \<Rightarrow> ms) w1
      in (d\<lparr>pollingInterval := Some h'\<rparr>, w2)))"

definition stopPolling :: "dashboard \<times> world \<Rightarrow> dashboard \<times> world" where
  "stopPolling dw = (case dw of (d, w) \<Rightarrow>
     (case pollingInterval d of
        Some h \<Rightarrow> (d\<lparr>pollingInterval := None\<rparr>, clearInterval h w)
      | None \<Rightarrow> (d, w)))"

text \<open>
  \<^verbatim>\<open>getDashboardData()\<close>. The three requests are issued one after the other before any
  response is awaited. In which order the responses arrive is the node's affair:
  \<^verbatim>\<open>schedule_first\<close> says whether the schedule request settles before the live-state
  request, which decides whose rejection \<^verbatim>\<open>Promise.all\<close> passes on when both reject.
  The cache request has its own \<^verbatim>\<open>catch\<close> and never rejects. Each of the three calls
  is \<^verbatim>\<open>get\<close> on the path of \<^verbatim>\<open>getCurrentState\<close>, \<^verbatim>\<open>getSchedule\<close> and
  \<^verbatim>\<open>getCacheData\<close>, split where it awaits \<^verbatim>\<open>fetch\<close>; the effects of handling the
  responses are recorded in the order of the requests. \<^verbatim>\<open>now\<close> is the reading of the
  clock, \<^verbatim>\<open>new Date().toISOString()\<close>.
\<close>

record dashboard_data =
  dd_state :: jsval
  dd_schedule :: jsval
  dd_cache :: jsval
  dd_timestamp :: string

text \<open>
  \<^verbatim>\<open>Promise.all\<close> of two promises that may reject and a third that is always
  fulfilled.
\<close>

definition promise_all3 ::
  "bool \<Rightarrow> jsval result \<Rightarrow> jsval result \<Rightarrow> jsval \<Rightarrow> (jsval \<times> jsval \<times> jsval) result" where
  "promise_all3 second_first r1 r2 v3 =
     (case (r1, r2) of
        (Inr a, Inr b) \<Rightarrow> Inr (a, b, v3)
      | (Inl e1, Inr b) \<Rightarrow> Inl e1
      | (Inr a, Inl e2) \<Rightarrow> Inl e2
      | (Inl e1, Inl e2) \<Rightarrow> Inl (if second_first then e2 else e1))"

definition getDashboardData ::
  "server \<Rightarrow> bool \<Rightarrow> string \<Rightarrow> dashboard \<Rightarrow> world \<Rightarrow> dashboard_data result \<times> world" where
  "getDashboardData srv schedule_first now d w =
     (let p = dash_process d;
          c = pc_client p;
          (f1, w1) = fetch srv (get_request c (basePath p @ ''/now'') no_options) w;
          (f2, w2) = fetch srv (get_request c (basePath p @ ''/schedule'') no_options) w1;
          (f3, w3) = fetch srv (get_request c (cache_path p []) no_options) w2;
          (r1, w4) = get_finish c (basePath p @ ''/now'') no_options f1 w3;
          (r2, w5) = get_finish c (basePath p @ ''/schedule'') no_options f2 w4;
          (r3, w6) = get_finish c (cache_path p []) no_options f3 w5;
          cacheData = (case r3 of Inl e \<Rightarrow> JNull | Inr v \<Rightarrow> v)
      in case promise_all3 schedule_first r1 r2 cacheData of
           Inr (currentState, schedule, cache) \<Rightarrow>
             (Inr \<lparr>dd_state = currentState, dd_schedule = schedule, dd_cache = cache,
                   dd_timestamp = now\<rparr>, w6)
         | Inl error \<Rightarrow> (Inl error, console_error ''Dashboard data fetch error:'' error w6))"

section \<open>Observations on runs\<close>

text \<open>
  What \<^verbatim>\<open>get\<close> and \<^verbatim>\<open>post\<close> return, as a function of what \<^verbatim>\<open>fetch\<close> settled to:
  the value of the \<^verbatim>\<open>try\<close> block of either method.
\<close>

definition settles_to :: "response result \<Rightarrow> jsval result" where
  "settles_to fetched =
     (case fetched of
        Inl e \<Rightarrow> Inl e
      | Inr response \<Rightarrow>
          if \<not> ok response then
            Inl (Error (''HTTP '' @ show_nat (status response) @ '': '' @ statusText response))
          else
            (case content_type response of
               Some contentType \<Rightarrow>
                 if contentType \<noteq> [] \<and> str_includes contentType ''application/json''
                 then json_body response
                 else (case text_body response of Inl e \<Rightarrow> Inl e | Inr s \<Rightarrow> Inr (JStr s))
             | None \<Rightarrow> (case text_body response of Inl e \<Rightarrow> Inl e | Inr s \<Rightarrow> Inr (JStr s))))"

text \<open>The effects between two states of the platform, and the subscriber calls among them.\<close>

definition new_events :: "world \<Rightarrow> world \<Rightarrow> event list" where
  "new_events w w' = drop (length (trace w)) (trace w')"

fun calls_of :: "event list \<Rightarrow> (nat \<times> jsval) list" where
  "calls_of [] = []"
| "calls_of (Call i state # es) = (i, state) # calls_of es"
| "calls_of (e # es) = calls_of es"

fun is_body_read :: "event \<Rightarrow> bool" where
  "is_body_read ReadJson = True"
| "is_body_read ReadText = True"
| "is_body_read e = False"

text \<open>
  The life of one dashboard: any sequence of calls of its methods and of timer ticks,
  from its construction on.
\<close>

datatype dash_op = Start "nat option" | Stop | Subscribe callback | Tick server

fun run_op :: "dash_op \<Rightarrow> dashboard \<times> world \<Rightarrow> dashboard \<times> world" where
  "run_op (Start interval) dw = startPolling interval dw"
| "run_op Stop dw = stopPolling dw"
| "run_op (Subscribe cb) (d, w) = (subscribe cb d, w)"
| "run_op (Tick srv) (d, w) = (d, tick srv d w)"

definition run_ops :: "dash_op list \<Rightarrow> dashboard \<times> world \<Rightarrow> dashboard \<times> world" where
  "run_ops ops dw = fold run_op ops dw"

text \<open>
  The timers of the platform that this dashboard has started and not cleared: those
  active now that were not active when the dashboard was constructed.
\<close>

definition own_timers :: "world \<Rightarrow> world \<Rightarrow> nat set" where
  "own_timers w0 w = dom (timers w) - dom (timers w0)"

definition handles_fresh :: "world \<Rightarrow> bool" where
  "handles_fresh w = (\<forall>h \<in> dom (timers w). h < next_timer w)"

text \<open>
  What holds between a dashboard and the platform throughout the dashboard's life:
  handles are fresh, the timers that were there before are still there, and the
  dashboard's own timers are exactly the handle it holds, if it holds one.
\<close>

definition engine_inv :: "world \<Rightarrow> dashboard \<times> world \<Rightarrow> bool" where
  "engine_inv w0 dw = (case dw of (d, w) \<Rightarrow>
     handles_fresh w \<and> next_timer w0 \<le> next_timer w \<and> dom (timers w0) \<subseteq> dom (timers w)
     \<and> own_timers w0 w = set_option (pollingInterval d))"

text \<open>Inputs for the worked instances below.\<close>

definition local_client :: client where
  "local_client = new_client \<lparr>opt_nodeUrl = None, opt_defaultHeaders = None, opt_timeout = None\<rparr>"

definition fresh_world :: world where
  "fresh_world = \<lparr>trace = [], timers = Map.empty, next_timer = 1\<rparr>"

definition busy_world :: world where
  "busy_world = \<lparr>trace = [], timers = [1 \<mapsto> 250], next_timer = 2\<rparr>"

definition json_response :: "jsval \<Rightarrow> response" where
  "json_response v =
     \<lparr>status = 200, statusText = ''OK'', content_type = Some ''application/json'',
      json_body = Inr v,
      text_body = (case JSON_stringify v of None \<Rightarrow> Inr [] | Some s \<Rightarrow> Inr s)\<rparr>"

definition not_found :: response where
  "not_found =
     \<lparr>status = 404, statusText = ''Not Found'', content_type = Some ''text/plain'',
      json_body = Inl (JsError ''SyntaxError'' ''Unexpected token''),
      text_body = Inr ''not found''\<rparr>"

section \<open>The typed query and the path\<close>

text \<open>
  C1. For \<^verbatim>\<open>{count: 42, items: ["apple", "banana"]}\<close> the parameters come out in
  insertion order, joined by \<^verbatim>\<open>&\<close>, but \<^verbatim>\<open>URLSearchParams\<close> percent-encodes the
  \<^verbatim>\<open>+\<close> of the type suffix and the \<^verbatim>\<open>,\<close> between the list elements: the result is
  not the string \<^verbatim>\<open>count+integer=42&items+list=apple,banana\<close> of the tutorial.
\<close>

theorem createTypedQuery_percent_encodes:
  "createTypedQuery [(''count'', JNum 42), (''items'', JArr [JStr ''apple'', JStr ''banana''])]
     = Inr ''count%2Binteger=42&items%2Blist=apple%2Cbanana''
   \<and> createTypedQuery [(''count'', JNum 42), (''items'', JArr [JStr ''apple'', JStr ''banana''])]
     \<noteq> Inr ''count+integer=42&items+list=apple,banana''"
  by code_simp

text \<open>
  The parameters of a concatenation are the parameters of its parts, in that order,
  joined by \<^verbatim>\<open>&\<close>.
\<close>

lemma join_strings_append:
  "xs \<noteq> [] \<Longrightarrow> ys \<noteq> [] \<Longrightarrow>
   join_strings sep (xs @ ys) = join_strings sep xs @ sep @ join_strings sep ys"
proof (induction sep xs rule: join_strings.induct)
  case (1 sep)
  then show ?case by simp
next
  case (2 sep s)
  then show ?case by (cases ys) simp_all
next
  case (3 sep s t ts)
  then show ?case by simp
qed

lemma params_toString_append:
  "q1 \<noteq> [] \<Longrightarrow> q2 \<noteq> [] \<Longrightarrow>
   params_toString (q1 @ q2) = params_toString q1 @ ''&'' @ params_toString q2"
  by (simp add: params_toString_def join_strings_append)

lemma typed_param_shift:
  "typed_param (pre @ q) kv =
     (case typed_param q kv of Inl e \<Rightarrow> Inl e | Inr q' \<Rightarrow> Inr (pre @ q'))"
  by (cases "(q, kv)" rule: typed_param.cases)
     (simp_all add: append_param_def split: sum.splits)

lemma typed_params_shift:
  "typed_params (pre @ q) ps =
     (case typed_params q ps of Inl e \<Rightarrow> Inl e | Inr q' \<Rightarrow> Inr (pre @ q'))"
proof (induction ps arbitrary: q)
  case Nil
  then show ?case by simp
next
  case (Cons kv ps)
  show ?case
    by (cases "typed_param q kv") (simp_all add: typed_param_shift Cons.IH)
qed

lemma typed_params_append:
  "typed_params q (ps1 @ ps2) =
     (case typed_params q ps1 of Inl e \<Rightarrow> Inl e | Inr q' \<Rightarrow> typed_params q' ps2)"
  by (induction ps1 arbitrary: q) (simp_all split: sum.splits)

lemma typed_param_length: "typed_param q kv = Inr q' \<Longrightarrow> length q' = Suc (length q)"
  by (cases "(q, kv)" rule: typed_param.cases) (auto simp: append_param_def split: sum.splits)

lemma typed_params_length: "typed_params q ps = Inr q' \<Longrightarrow> length q' = length q + length ps"
proof (induction ps arbitrary: q)
  case Nil
  then show ?case by simp
next
  case (Cons kv ps)
  then show ?case
    by (cases "typed_param q kv") (auto dest: typed_param_length)
qed

lemma createTypedQuery_append:
  assumes "ps1 \<noteq> []" "ps2 \<noteq> []"
    and "createTypedQuery ps1 = Inr s1" "createTypedQuery ps2 = Inr s2"
  shows "createTypedQuery (ps1 @ ps2) = Inr (s1 @ ''&'' @ s2)"
proof -
  from assms(3) obtain q1 where q1: "typed_params [] ps1 = Inr q1" "s1 = params_toString q1"
    by (auto simp: createTypedQuery_def split: sum.splits)
  from assms(4) obtain q2 where q2: "typed_params [] ps2 = Inr q2" "s2 = params_toString q2"
    by (auto simp: createTypedQuery_def split: sum.splits)
  from typed_params_length [OF q1(1)] assms(1) have n1: "q1 \<noteq> []" by auto
  from typed_params_length [OF q2(1)] assms(2) have n2: "q2 \<noteq> []" by auto
  have "typed_params q1 ps2 = Inr (q1 @ q2)"
    using typed_params_shift [of q1 "[]" ps2] q2(1) by simp
  then have "typed_params [] (ps1 @ ps2) = Inr (q1 @ q2)"
    by (simp add: typed_params_append q1(1))
  then show ?thesis
    by (simp add: createTypedQuery_def params_toString_append [OF n1 n2] q1(2) q2(2))
qed

text \<open>
  C2, as the code has it. With a non-empty path and at least one parameter, the address
  is the device, then \<^verbatim>\<open>?\<close> and the encoded parameters, and only then \<^verbatim>\<open>/\<close> and the
  path: the path follows the query, as in the addresses of the tutorial
  (\<^verbatim>\<open>/~message@1.0?name=Alice&age+integer=30/name\<close>). Parameters inserted later come
  later in the query, after an \<^verbatim>\<open>&\<close>.
\<close>

theorem buildPath_path_after_query:
  assumes "path \<noteq> []" "params \<noteq> []" "createTypedQuery params = Inr q"
  shows "buildPath device path params = Inr (''/'' @ device @ ''?'' @ q @ ''/'' @ path)
     \<and> (\<forall>more q'. more \<noteq> [] \<and> createTypedQuery more = Inr q' \<longrightarrow>
           buildPath device path (params @ more)
             = Inr (''/'' @ device @ ''?'' @ q @ ''&'' @ q' @ ''/'' @ path))"
proof -
  have one: "buildPath device path params = Inr (''/'' @ device @ ''?'' @ q @ ''/'' @ path)"
    using assms by (simp add: buildPath_def)
  have "buildPath device path (params @ more)
      = Inr (''/'' @ device @ ''?'' @ q @ ''&'' @ q' @ ''/'' @ path)"
    if "more \<noteq> []" "createTypedQuery more = Inr q'" for more q'
    using createTypedQuery_append [OF assms(2) that(1) assms(3) that(2)] assms(1,2)
    by (simp add: buildPath_def)
  with one show ?thesis by blast
qed

theorem buildPath_path_after_query_witness:
  "''items'' \<noteq> [] \<and> [(''name'', JStr ''Alice'')] \<noteq> []
   \<and> createTypedQuery [(''name'', JStr ''Alice'')] = Inr ''name=Alice''
   \<and> buildPath ''~message@1.0'' ''items'' [(''name'', JStr ''Alice'')]
       = Inr ''/~message@1.0?name=Alice/items''
   \<and> buildPath ''~message@1.0'' ''items'' [(''name'', JStr ''Alice''), (''transform'', JStr ''name'')]
       = Inr ''/~message@1.0?name=Alice&transform=name/items''"
proof -
  have q: "createTypedQuery [(''name'', JStr ''Alice'')] = Inr ''name=Alice''"
    by code_simp
  have q': "createTypedQuery [(''transform'', JStr ''name'')] = Inr ''transform=name''"
    by code_simp
  have p: "''items'' \<noteq> []" and ps: "[(''name'', JStr ''Alice'')] \<noteq> []"
    by simp_all
  from buildPath_path_after_query [OF p ps q, of "''~message@1.0''"] q q' show ?thesis
    by simp
qed

text \<open>
  C2 as stated fails: the segment \<^verbatim>\<open>items\<close> comes after the \<^verbatim>\<open>?\<close>, not before it.
\<close>

theorem buildPath_segments_first_counterexample:
  "buildPath ''~message@1.0'' ''items'' [(''name'', JStr ''Alice'')]
     = Inr ''/~message@1.0?name=Alice/items''
   \<and> buildPath ''~message@1.0'' ''items'' [(''name'', JStr ''Alice'')]
     \<noteq> Inr ''/~message@1.0/items?name=Alice''"
  by code_simp


















section \<open>Requests\<close>

lemma trace_emit [simp]: "trace (emit e w) = trace w @ [e]"
  and timers_emit [simp]: "timers (emit e w) = timers w"
  and next_timer_emit [simp]: "next_timer (emit e w) = next_timer w"
  by (simp_all add: emit_def)

lemma fetch_count_emit [simp]:
  "fetch_count (emit e w) = (if is_fetch e then Suc (fetch_count w) else fetch_count w)"
  by (simp add: fetch_count_def)

lemma fetch_eq: "fetch srv req w = (srv (fetch_count w) req, emit (Fetch req) w)"
  by (simp add: fetch_def)

lemma get_finish_result: "fst (get_finish c path options fetched w) = settles_to fetched"
  by (simp add: get_finish_def settles_to_def response_json_def response_text_def Let_def
      split: sum.splits option.splits prod.splits)

lemma post_finish_result: "fst (post_finish c path options fetched w) = settles_to fetched"
  by (simp add: post_finish_def settles_to_def response_json_def response_text_def Let_def
      split: sum.splits option.splits prod.splits)

lemma get_finish_world:
  "fetch_count (snd (get_finish c path options fetched w)) = fetch_count w
   \<and> timers (snd (get_finish c path options fetched w)) = timers w
   \<and> next_timer (snd (get_finish c path options fetched w)) = next_timer w"
  by (simp add: get_finish_def response_json_def response_text_def console_error_def Let_def
      split: sum.splits option.splits prod.splits)

lemma get_result:
  "fst (get srv c path options w) = settles_to (srv (fetch_count w) (get_request c path options))"
  by (simp add: get_def fetch_eq get_finish_result)

lemma get_world:
  "fetch_count (snd (get srv c path options w)) = Suc (fetch_count w)
   \<and> timers (snd (get srv c path options w)) = timers w
   \<and> next_timer (snd (get srv c path options w)) = next_timer w"
  by (simp add: get_def fetch_eq get_finish_world)

section \<open>Waiting for a state change\<close>

text \<open>One iteration of the loop under a predicate that never holds.\<close>

lemma attempt_never:
  assumes never: "\<forall>s. checkFunction s = Inr False"
  shows "fst (attempt srv p checkFunction n iv i w) =
           (case settles_to (srv (fetch_count w)
                   (get_request (pc_client p) (basePath p @ ''/now'') no_options)) of
              Inl e \<Rightarrow> if Suc i = n then Some (Inl e) else None
            | Inr s \<Rightarrow> None)"
    and "fetch_count (snd (attempt srv p checkFunction n iv i w)) = Suc (fetch_count w)"
  using never
  by (simp_all add: attempt_def getCurrentState_def Let_def case_prod_beta get_result get_world
      sleep_def console_warn_def split: sum.splits)

text \<open>
  The loop from iteration \<open>i\<close> on, by induction on the number \<open>k\<close> of iterations left:
  every one of them fetches once, and the last one decides the failure.
\<close>

lemma wait_loop_never:
  assumes never: "\<forall>s. checkFunction s = Inr False"
  shows "n - i = k \<Longrightarrow> i < n \<Longrightarrow>
     fetch_count (snd (wait_loop srv p checkFunction n iv i w)) = fetch_count w + (n - i)
     \<and> fst (wait_loop srv p checkFunction n iv i w) =
         (case settles_to (srv (fetch_count w + (n - i) - 1)
                 (get_request (pc_client p) (basePath p @ ''/now'') no_options)) of
            Inl e \<Rightarrow> Inl e
          | Inr s \<Rightarrow> Inl (Error (''State change not detected after '' @ show_nat n @ '' attempts'')))"
proof (induction k arbitrary: i w)
  case 0
  then show ?case by simp
next
  case (Suc k)
  let ?req = "get_request (pc_client p) (basePath p @ ''/now'') no_options"
  let ?a = "attempt srv p checkFunction n iv i w"
  have a1: "fst ?a = (case settles_to (srv (fetch_count w) ?req) of
              Inl e \<Rightarrow> if Suc i = n then Some (Inl e) else None
            | Inr s \<Rightarrow> None)"
    by (rule attempt_never(1) [OF never])
  have a2: "fetch_count (snd ?a) = Suc (fetch_count w)"
    by (rule attempt_never(2) [OF never])
  have unfold: "wait_loop srv p checkFunction n iv i w =
      (case ?a of (Some r, w') \<Rightarrow> (r, w')
       | (None, w') \<Rightarrow> wait_loop srv p checkFunction n iv (Suc i) w')"
    using Suc.prems(2) by (subst wait_loop.simps) simp
  show ?case
  proof (cases "Suc i = n")
    case True
    then have last: "n - i = 1" by simp
    have stop: "wait_loop srv p checkFunction n iv (Suc i) (snd ?a) =
        (Inl (Error (''State change not detected after '' @ show_nat n @ '' attempts'')), snd ?a)"
      using True by (subst wait_loop.simps) simp
    show ?thesis
    proof (cases "settles_to (srv (fetch_count w) ?req)")
      case (Inl e)
      with a1 True have "fst ?a = Some (Inl e)" by simp
      then have "wait_loop srv p checkFunction n iv i w = (Inl e, snd ?a)"
        unfolding unfold by (cases ?a) simp
      with a2 last Inl show ?thesis by simp
    next
      case (Inr s)
      with a1 have "fst ?a = None" by simp
      then have "wait_loop srv p checkFunction n iv i w =
          wait_loop srv p checkFunction n iv (Suc i) (snd ?a)"
        unfolding unfold by (cases ?a) simp
      with stop a2 last Inr show ?thesis by simp
    qed
  next
    case False
    with Suc.prems have lt: "Suc i < n" and k: "n - Suc i = k" by simp_all
    from a1 False have "fst ?a = None" by (simp split: sum.splits)
    then have step: "wait_loop srv p checkFunction n iv i w =
        wait_loop srv p checkFunction n iv (Suc i) (snd ?a)"
      unfolding unfold by (cases ?a) simp
    have idx: "fetch_count (snd ?a) + (n - Suc i) - 1 = fetch_count w + (n - i) - 1"
      using a2 lt by simp
    have cnt: "fetch_count (snd ?a) + (n - Suc i) = fetch_count w + (n - i)"
      using a2 lt by simp
    from Suc.IH [OF k lt, of "snd ?a"] show ?thesis
      unfolding step idx cnt by simp
  qed
qed

lemma get_trace_one_fetch:
  "\<exists>es. trace (snd (get srv c path options w)) = trace w @ Fetch (get_request c path options) # es
        \<and> filter is_fetch es = []"
  by (auto simp: get_def fetch_eq get_finish_def response_json_def response_text_def
      console_error_def Let_def split: sum.splits option.splits prod.splits)

lemma attempt_trace:
  "\<exists>es. trace (snd (attempt srv p checkFunction n iv i w))
          = trace w @ Fetch (get_request (pc_client p) (basePath p @ ''/now'') no_options) # es
        \<and> filter is_fetch es = []"
proof -
  let ?g = "get srv (pc_client p) (basePath p @ ''/now'') no_options w"
  from get_trace_one_fetch [of srv "pc_client p" "basePath p @ ''/now''" no_options w]
  obtain es where es: "trace (snd ?g)
      = trace w @ Fetch (get_request (pc_client p) (basePath p @ ''/now'') no_options) # es"
      "filter is_fetch es = []"
    by blast
  then show ?thesis
    by (auto simp: attempt_def getCurrentState_def Let_def case_prod_beta sleep_def
        console_warn_def split: sum.splits)
qed

text \<open>
  The requests of the loop from iteration \<open>i\<close> on: one per iteration left, each for the
  live state.
\<close>

lemma wait_loop_fetches:
  assumes never: "\<forall>s. checkFunction s = Inr False"
  shows "n - i = k \<Longrightarrow>
     \<exists>es. trace (snd (wait_loop srv p checkFunction n iv i w)) = trace w @ es
        \<and> filter is_fetch es
            = replicate k (Fetch (get_request (pc_client p) (basePath p @ ''/now'') no_options))"
proof (induction k arbitrary: i w)
  case 0
  then have "\<not> i < n" by simp
  then have "wait_loop srv p checkFunction n iv i w =
      (Inl (Error (''State change not detected after '' @ show_nat n @ '' attempts'')), w)"
    by (subst wait_loop.simps) simp
  then show ?case by simp
next
  case (Suc k)
  let ?req = "get_request (pc_client p) (basePath p @ ''/now'') no_options"
  let ?a = "attempt srv p checkFunction n iv i w"
  from Suc.prems have lt: "i < n" and k: "n - Suc i = k" by simp_all
  from attempt_trace [of srv p checkFunction n iv i w] obtain es1 where
    es1: "trace (snd ?a) = trace w @ Fetch ?req # es1" "filter is_fetch es1 = []"
    by blast
  have unfold: "wait_loop srv p checkFunction n iv i w =
      (case ?a of (Some r, w') \<Rightarrow> (r, w')
       | (None, w') \<Rightarrow> wait_loop srv p checkFunction n iv (Suc i) w')"
    using lt by (subst wait_loop.simps) simp
  show ?case
  proof (cases "fst ?a")
    case None
    then have step: "wait_loop srv p checkFunction n iv i w =
        wait_loop srv p checkFunction n iv (Suc i) (snd ?a)"
      unfolding unfold by (cases ?a) simp
    from Suc.IH [OF k, of "snd ?a"] obtain es2 where
      es2: "trace (snd (wait_loop srv p checkFunction n iv (Suc i) (snd ?a))) = trace (snd ?a) @ es2"
           "filter is_fetch es2 = replicate k (Fetch ?req)"
      by blast
    have "trace (snd (wait_loop srv p checkFunction n iv i w)) = trace w @ (Fetch ?req # es1 @ es2)"
      using es1(1) es2(1) by (simp add: step)
    moreover have "filter is_fetch (Fetch ?req # es1 @ es2) = replicate (Suc k) (Fetch ?req)"
      using es1(2) es2(2) by simp
    ultimately show ?thesis by blast
  next
    case (Some r)
    with attempt_never(1) [OF never, of srv p n iv i w] have "Suc i = n"
      by (simp split: sum.splits if_splits)
    with k have k0: "k = 0" by simp
    from Some have "wait_loop srv p checkFunction n iv i w = (r, snd ?a)"
      unfolding unfold by (cases ?a) simp
    then have "trace (snd (wait_loop srv p checkFunction n iv i w)) = trace w @ (Fetch ?req # es1)"
      using es1(1) by simp
    moreover have "filter is_fetch (Fetch ?req # es1) = replicate (Suc k) (Fetch ?req)"
      using es1(2) k0 by simp
    ultimately show ?thesis by blast
  qed
qed

text \<open>
  C5. With a predicate that never holds and \<^verbatim>\<open>maxAttempts = 3\<close>, whatever the node
  answers (so also when fetches fail), \<^verbatim>\<open>waitForStateChange\<close> issues exactly three
  requests, each for the live state. It fails with what the third attempt failed with, if that attempt failed,
  and otherwise with the error \<^verbatim>\<open>State change not detected after 3 attempts\<close>; a
  failure of the first or second attempt does not show in the result.
\<close>

theorem waitForStateChange_three_attempts:
  assumes "\<forall>s. checkFunction s = Inr False"
  shows "filter is_fetch
           (new_events w (snd (waitForStateChange srv p checkFunction (Some 3) interval w)))
           = replicate 3 (Fetch (get_request (pc_client p) (basePath p @ ''/now'') no_options))
     \<and> fetch_count (snd (waitForStateChange srv p checkFunction (Some 3) interval w))
           = fetch_count w + 3
     \<and> fst (waitForStateChange srv p checkFunction (Some 3) interval w) =
         (case settles_to (srv (fetch_count w + 2)
                 (get_request (pc_client p) (basePath p @ ''/now'') no_options)) of
            Inl e \<Rightarrow> Inl e
          | Inr s \<Rightarrow> Inl (Error ''State change not detected after 3 attempts''))"
proof -
  have three: "show_nat 3 = ''3''"
    by (simp add: show_nat.simps digit_char_def)
  have left: "(3::nat) - 0 = 3" and lt: "(0::nat) < 3" by simp_all
  from wait_loop_fetches [OF assms left,
      of srv p "case interval of None \<Rightarrow> 2000 | Some ms \<Rightarrow> ms" w]
  obtain es where "trace (snd (wait_loop srv p checkFunction 3
        (case interval of None \<Rightarrow> 2000 | Some ms \<Rightarrow> ms) 0 w)) = trace w @ es"
    "filter is_fetch es
       = replicate 3 (Fetch (get_request (pc_client p) (basePath p @ ''/now'') no_options))"
    by blast
  then have fetches: "filter is_fetch
      (new_events w (snd (waitForStateChange srv p checkFunction (Some 3) interval w)))
      = replicate 3 (Fetch (get_request (pc_client p) (basePath p @ ''/now'') no_options))"
    by (simp add: waitForStateChange_def new_events_def)
  from wait_loop_never [OF assms left lt, of srv p _ w]
  have "fetch_count (snd (waitForStateChange srv p checkFunction (Some 3) interval w))
           = fetch_count w + 3
     \<and> fst (waitForStateChange srv p checkFunction (Some 3) interval w) =
         (case settles_to (srv (fetch_count w + 2)
                 (get_request (pc_client p) (basePath p @ ''/now'') no_options)) of
            Inl e \<Rightarrow> Inl e
          | Inr s \<Rightarrow> Inl (Error ''State change not detected after 3 attempts''))"
    unfolding waitForStateChange_def three by (simp cong: sum.case_cong)
  with fetches show ?thesis by blast
qed


theorem waitForStateChange_three_attempts_witness:
  "(\<forall>s. (\<lambda>s. Inr False :: bool result) s = Inr False)
   \<and> fetch_count (snd (waitForStateChange
        (\<lambda>n r. if n = 0 then Inl (TypeError ''fetch failed'')
                else Inr (json_response (JNum (of_nat n))))
        (process local_client ''P'') (\<lambda>s. Inr False) (Some 3) (Some 1000) fresh_world)) = 3
   \<and> fst (waitForStateChange
        (\<lambda>n r. if n = 0 then Inl (TypeError ''fetch failed'')
                else Inr (json_response (JNum (of_nat n))))
        (process local_client ''P'') (\<lambda>s. Inr False) (Some 3) (Some 1000) fresh_world)
       = Inl (Error ''State change not detected after 3 attempts'')
   \<and> fetch_count (snd (waitForStateChange
        (\<lambda>n r. if n = 2 then Inr not_found else Inr (json_response (JNum (of_nat n))))
        (process local_client ''P'') (\<lambda>s. Inr False) (Some 3) (Some 1000) fresh_world)) = 3
   \<and> fst (waitForStateChange
        (\<lambda>n r. if n = 2 then Inr not_found else Inr (json_response (JNum (of_nat n))))
        (process local_client ''P'') (\<lambda>s. Inr False) (Some 3) (Some 1000) fresh_world)
       = Inl (Error ''HTTP 404: Not Found'')"
proof -
  have never: "\<forall>s. (\<lambda>s. Inr False :: bool result) s = Inr False"
    by simp
  have n404: "show_nat 404 = ''404''"
    by code_simp
  from waitForStateChange_three_attempts [OF never,
      where srv = "\<lambda>n r. if n = 0 then Inl (TypeError ''fetch failed'')
                         else Inr (json_response (JNum (of_nat n)))"
        and p = "process local_client ''P''" and interval = "Some 1000" and w = fresh_world]
  have first: "fetch_count (snd (waitForStateChange
        (\<lambda>n r. if n = 0 then Inl (TypeError ''fetch failed'')
                else Inr (json_response (JNum (of_nat n))))
        (process local_client ''P'') (\<lambda>s. Inr False) (Some 3) (Some 1000) fresh_world)) = 3
   \<and> fst (waitForStateChange
        (\<lambda>n r. if n = 0 then Inl (TypeError ''fetch failed'')
                else Inr (json_response (JNum (of_nat n))))
        (process local_client ''P'') (\<lambda>s. Inr False) (Some 3) (Some 1000) fresh_world)
       = Inl (Error ''State change not detected after 3 attempts'')"
    by (simp add: fresh_world_def fetch_count_def settles_to_def json_response_def ok_def)
  from waitForStateChange_three_attempts [OF never,
      where srv = "\<lambda>n r. if n = 2 then Inr not_found else Inr (json_response (JNum (of_nat n)))"
        and p = "process local_client ''P''" and interval = "Some 1000" and w = fresh_world]
  have last: "fetch_count (snd (waitForStateChange
        (\<lambda>n r. if n = 2 then Inr not_found else Inr (json_response (JNum (of_nat n))))
        (process local_client ''P'') (\<lambda>s. Inr False) (Some 3) (Some 1000) fresh_world)) = 3
   \<and> fst (waitForStateChange
        (\<lambda>n r. if n = 2 then Inr not_found else Inr (json_response (JNum (of_nat n))))
        (process local_client ''P'') (\<lambda>s. Inr False) (Some 3) (Some 1000) fresh_world)
       = Inl (Error ''HTTP 404: Not Found'')"
    by (simp add: fresh_world_def fetch_count_def settles_to_def not_found_def ok_def n404)
  from never first last show ?thesis
    by blast
qed


section \<open>Failed requests and request bodies\<close>

lemma new_events_append: "trace w' = trace w @ es \<Longrightarrow> new_events w w' = es"
  by (simp add: new_events_def)

lemma get_fail_trace:
  assumes "srv (fetch_count w) (get_request c path options) = Inr response" "\<not> ok response"
  shows "trace (snd (get srv c path options w)) = trace w @ Fetch (get_request c path options) #
     (if debug options
      then [ConsoleError (''GET '' @ nodeUrl c @ path @ '' failed:'')
              (Error (''HTTP '' @ show_nat (status response) @ '': '' @ statusText response))]
      else [])"
  using assms by (simp add: get_def fetch_eq get_finish_def console_error_def)

lemma post_result:
  "fst (post srv c path data options w)
     = settles_to (srv (fetch_count w) (post_request c path data options))"
  by (simp add: post_def fetch_eq post_finish_result)

lemma post_fail_trace:
  assumes "srv (fetch_count w) (post_request c path data options) = Inr response" "\<not> ok response"
  shows "trace (snd (post srv c path data options w)) =
     trace w @ Fetch (post_request c path data options) #
     (if debug options
      then [ConsoleError (''POST '' @ nodeUrl c @ path @ '' failed:'')
              (Error (''HTTP '' @ show_nat (status response) @ '': '' @ statusText response))]
      else [])"
  using assms by (simp add: post_def fetch_eq post_finish_def console_error_def)

text \<open>
  C9. When the node answers a \<^verbatim>\<open>get\<close> or a \<^verbatim>\<open>post\<close> with a status outside 200 to
  299, the call fails with the error \<^verbatim>\<open>HTTP <status>: <statusText>\<close>, and neither
  \<^verbatim>\<open>response.json()\<close> nor \<^verbatim>\<open>response.text()\<close> is among its effects.
\<close>

theorem non_success_status_fails:
  assumes non2xx: "status response < 200 \<or> 299 < status response"
  shows "(srv (fetch_count w) (get_request c path options) = Inr response \<longrightarrow>
            fst (get srv c path options w)
              = Inl (Error (''HTTP '' @ show_nat (status response) @ '': '' @ statusText response))
            \<and> filter is_body_read (new_events w (snd (get srv c path options w))) = [])
       \<and> (srv (fetch_count w) (post_request c path data options) = Inr response \<longrightarrow>
            fst (post srv c path data options w)
              = Inl (Error (''HTTP '' @ show_nat (status response) @ '': '' @ statusText response))
            \<and> filter is_body_read (new_events w (snd (post srv c path data options w))) = [])"
proof -
  from non2xx have nok: "\<not> ok response"
    by (auto simp: ok_def)
  have g: "fst (get srv c path options w)
              = Inl (Error (''HTTP '' @ show_nat (status response) @ '': '' @ statusText response))
            \<and> filter is_body_read (new_events w (snd (get srv c path options w))) = []"
    if r: "srv (fetch_count w) (get_request c path options) = Inr response"
  proof -
    have "fst (get srv c path options w) = settles_to (Inr response)"
      using r by (simp add: get_result)
    moreover have "filter is_body_read (new_events w (snd (get srv c path options w))) = []"
      by (simp add: new_events_append
            [OF get_fail_trace [of srv w c path options response, OF r nok]])
    ultimately show ?thesis using nok by (simp add: settles_to_def)
  qed
  have p: "fst (post srv c path data options w)
              = Inl (Error (''HTTP '' @ show_nat (status response) @ '': '' @ statusText response))
            \<and> filter is_body_read (new_events w (snd (post srv c path data options w))) = []"
    if r: "srv (fetch_count w) (post_request c path data options) = Inr response"
  proof -
    have "fst (post srv c path data options w) = settles_to (Inr response)"
      using r by (simp add: post_result)
    moreover have "filter is_body_read (new_events w (snd (post srv c path data options w))) = []"
      by (simp add: new_events_append
            [OF post_fail_trace [of srv w c path data options response, OF r nok]])
    ultimately show ?thesis using nok by (simp add: settles_to_def)
  qed
  from g p show ?thesis by blast
qed

theorem non_success_status_fails_witness:
  "(status not_found < 200 \<or> 299 < status not_found)
   \<and> fst (get (\<lambda>n r. Inr not_found) local_client ''/P~process@1.0/schedule'' no_options fresh_world)
       = Inl (Error ''HTTP 404: Not Found'')
   \<and> filter is_body_read (new_events fresh_world
        (snd (get (\<lambda>n r. Inr not_found) local_client ''/P~process@1.0/schedule'' no_options fresh_world)))
       = []
   \<and> fst (post (\<lambda>n r. Inr not_found) local_client ''/P~process@1.0/schedule'' (JObj [])
             no_options fresh_world)
       = Inl (Error ''HTTP 404: Not Found'')
   \<and> filter is_body_read (new_events fresh_world
        (snd (post (\<lambda>n r. Inr not_found) local_client ''/P~process@1.0/schedule'' (JObj [])
                no_options fresh_world)))
       = []"
proof -
  have s: "status not_found < 200 \<or> 299 < status not_found"
    by (simp add: not_found_def)
  have n404: "show_nat 404 = ''404''"
    by code_simp
  from non_success_status_fails [OF s, of "\<lambda>n r. Inr not_found" fresh_world local_client
      "''/P~process@1.0/schedule''" no_options "JObj []"] s
  show ?thesis
    by (simp add: not_found_def n404)
qed

lemma length_json_escape: "length s \<le> length (concat (map json_escape_char s))"
proof (induction s)
  case Nil
  then show ?case by simp
next
  case (Cons c s)
  have "1 \<le> length (json_escape_char c)"
    by (simp add: json_escape_char_def)
  with Cons show ?case by simp
qed

lemma json_quote_longer: "json_quote s \<noteq> s"
proof
  assume "json_quote s = s"
  then have "length (json_quote s) = length s" by simp
  with length_json_escape [of s] show False
    by (simp add: json_quote_def)
qed

lemma post_first_event:
  "hd (new_events w (snd (post srv c path data options w)))
     = Fetch (post_request c path data options)"
proof -
  obtain r w' where f:
    "post_finish c path options (srv (fetch_count w) (post_request c path data options))
       (emit (Fetch (post_request c path data options)) w) = (r, w')"
    by (cases "post_finish c path options (srv (fetch_count w) (post_request c path data options))
      (emit (Fetch (post_request c path data options)) w)")
  have "\<exists>es. trace w' = trace w @ Fetch (post_request c path data options) # es"
    using f
    by (auto simp: post_finish_def response_json_def response_text_def console_error_def Let_def
        split: sum.splits option.splits prod.splits if_splits)
  then obtain es where "trace w' = trace w @ Fetch (post_request c path data options) # es" ..
  then show ?thesis
    by (simp add: post_def fetch_eq f new_events_def)
qed

text \<open>
  C10. The body of the request that \<^verbatim>\<open>post\<close> issues is the payload itself when the
  payload is a string, which is never its JSON serialization (that one is longer by the
  quotes at least), and \<^verbatim>\<open>JSON.stringify\<close> of the payload when it is anything else
  (of \<^verbatim>\<open>{}\<close> when it is \<^verbatim>\<open>undefined\<close>); \<^verbatim>\<open>sendMessage\<close> issues that same request
  to the \<^verbatim>\<open>schedule\<close> path of the process.
\<close>

theorem post_body_verbatim_or_json:
  "body (post_request c path (JStr str) options) = Some str
   \<and> Some str \<noteq> JSON_stringify (JStr str)
   \<and> (typeof data \<noteq> ''string'' \<longrightarrow>
        body (post_request c path data options)
          = JSON_stringify (if data = JUndefined then JObj [] else data)
        \<and> body (post_request c path data options) \<noteq> None)
   \<and> hd (new_events w (snd (post srv c path data options w)))
       = Fetch (post_request c path data options)
   \<and> hd (new_events w (snd (sendMessage srv p action data hdrs w)))
       = Fetch (post_request (pc_client p) (basePath p @ ''/schedule'') data
                  (sendMessage_options action hdrs))"
proof -
  have a: "body (post_request c path (JStr str) options) = Some str"
    by (simp add: post_request_def)
  have b: "Some str \<noteq> JSON_stringify (JStr str)"
    using json_quote_longer [of str] by auto
  have c: "body (post_request c path data options)
          = JSON_stringify (if data = JUndefined then JObj [] else data)
        \<and> body (post_request c path data options) \<noteq> None" if "typeof data \<noteq> ''string''"
    using that by (cases data) (simp_all add: post_request_def typeof_def)
  have idem: "post_request c' path' (if data = JUndefined then JObj [] else data) options'
      = post_request c' path' data options'" for c' path' options'
    by (simp add: post_request_def)
  have d: "hd (new_events w (snd (sendMessage srv p action data hdrs w)))
       = Fetch (post_request (pc_client p) (basePath p @ ''/schedule'') data
                  (sendMessage_options action hdrs))"
    unfolding sendMessage_def Let_def by (simp only: post_first_event idem)
  from a b c d post_first_event [of w srv c path data options] show ?thesis
    by blast
qed

theorem post_body_verbatim_or_json_witness:
  "typeof (JArr [JNum 1, JBool True]) \<noteq> ''string''
   \<and> body (post_request local_client ''/P~process@1.0/schedule'' (JArr [JNum 1, JBool True])
             no_options) = Some ''[1,true]''
   \<and> body (post_request local_client ''/P~process@1.0/schedule'' (JStr ''[1,true]'')
             no_options) = Some ''[1,true]''"
proof -
  have t: "typeof (JArr [JNum 1, JBool True]) \<noteq> ''string''"
    by (simp add: typeof_def)
  have j: "JSON_stringify (JArr [JNum 1, JBool True]) = Some ''[1,true]''"
    by code_simp
  from post_body_verbatim_or_json [of local_client "''/P~process@1.0/schedule''" "''[1,true]''"
      no_options "JArr [JNum 1, JBool True]"] t j
  show ?thesis
    by simp
qed

section \<open>The polling engine\<close>

lemma calls_of_append: "calls_of (xs @ ys) = calls_of xs @ calls_of ys"
  by (induction xs rule: calls_of.induct) simp_all

text \<open>
  The \<^verbatim>\<open>forEach\<close> from position \<open>i\<close> on: whatever the callbacks do, the calls it makes
  are one per subscriber, in order, each with the state.
\<close>

lemma notify_from_trace:
  "\<exists>es. trace (notify_from i cbs state w) = trace w @ es
        \<and> calls_of es = map (\<lambda>j. (j, state)) [i..<i + length cbs]"
proof (induction cbs arbitrary: i w)
  case Nil
  then show ?case by simp
next
  case (Cons cb cbs)
  let ?w1 = "emit (Call i state) w"
  let ?w2 = "case cb state of None \<Rightarrow> ?w1
             | Some error \<Rightarrow> console_error ''Subscriber callback error:'' error ?w1"
  obtain here where here: "trace ?w2 = trace w @ here" "calls_of here = [(i, state)]"
    by (cases "cb state") (simp_all add: console_error_def)
  from Cons.IH [of "Suc i" ?w2] obtain es where
    es: "trace (notify_from (Suc i) cbs state ?w2) = trace ?w2 @ es"
        "calls_of es = map (\<lambda>j. (j, state)) [Suc i..<Suc i + length cbs]"
    by blast
  have rng: "[i..<i + length (cb # cbs)] = i # [Suc i..<Suc i + length cbs]"
    by (simp del: upt_Suc add: upt_conv_Cons)
  have "trace (notify_from i (cb # cbs) state w) = trace w @ (here @ es)"
    using here(1) es(1) by (simp add: Let_def)
  moreover
  have "calls_of (here @ es) = map (\<lambda>j. (j, state)) [i..<i + length (cb # cbs)]"
    by (simp only: calls_of_append here(2) es(2) rng list.map append.simps)
  ultimately show ?case by blast
qed

lemma notify_from_timers:
  "timers (notify_from i cbs state w) = timers w
   \<and> next_timer (notify_from i cbs state w) = next_timer w"
  by (induction cbs arbitrary: i w) (simp_all add: Let_def console_error_def split: option.splits)

lemma notify_calls:
  "calls_of (new_events w (notifySubscribers d state w))
     = map (\<lambda>i. (i, state)) [0..<length (subscribers d)]"
proof -
  from notify_from_trace [of 0 "subscribers d" state w] obtain es where
    "trace (notify_from 0 (subscribers d) state w) = trace w @ es"
    "calls_of es = map (\<lambda>j. (j, state)) [0..<0 + length (subscribers d)]"
    by blast
  then show ?thesis
    by (simp add: notifySubscribers_def new_events_def)
qed

lemma get_trace_no_calls:
  "\<exists>es. trace (snd (get srv c path options w)) = trace w @ es \<and> calls_of es = []"
  by (auto simp: get_def fetch_eq get_finish_def response_json_def response_text_def
      console_error_def Let_def split: sum.splits option.splits prod.splits)

lemma tick_timers: "timers (tick srv d w) = timers w \<and> next_timer (tick srv d w) = next_timer w"
  by (cases "fst (getCurrentState srv (dash_process d) w)")
     (simp_all add: tick_def case_prod_beta console_error_def notifySubscribers_def
        notify_from_timers getCurrentState_def get_world)


text \<open>
  C8. \<^verbatim>\<open>notifySubscribers\<close> calls every subscriber once, in the order of registration,
  with the state, whichever of them throw. A tick whose fetch succeeds makes exactly
  these calls with the fetched state; a tick whose fetch fails calls no subscriber and
  reports the error on the console; neither touches the timers.
\<close>

theorem tick_notifies_every_subscriber:
  "calls_of (new_events w (notifySubscribers d state w))
     = map (\<lambda>i. (i, state)) [0..<length (subscribers d)]
   \<and> (fst (getCurrentState srv (dash_process d) w) = Inr state \<longrightarrow>
        calls_of (new_events w (tick srv d w))
          = map (\<lambda>i. (i, state)) [0..<length (subscribers d)])
   \<and> (fst (getCurrentState srv (dash_process d) w) = Inl error \<longrightarrow>
        calls_of (new_events w (tick srv d w)) = []
        \<and> last (trace (tick srv d w)) = ConsoleError ''Polling error:'' error)
   \<and> timers (tick srv d w) = timers w"
proof -
  let ?g = "getCurrentState srv (dash_process d) w"
  from get_trace_no_calls [of srv "pc_client (dash_process d)" _ no_options w]
  obtain es where es: "trace (snd ?g) = trace w @ es" "calls_of es = []"
    unfolding getCurrentState_def by blast
  have ok_case: "calls_of (new_events w (tick srv d w))
      = map (\<lambda>i. (i, state)) [0..<length (subscribers d)]" if s: "fst ?g = Inr state"
  proof -
    have t: "tick srv d w = notifySubscribers d state (snd ?g)"
      using s by (simp add: tick_def case_prod_beta)
    from notify_from_trace [of 0 "subscribers d" state "snd ?g"] obtain ns where
      ns: "trace (notifySubscribers d state (snd ?g)) = trace (snd ?g) @ ns"
          "calls_of ns = map (\<lambda>j. (j, state)) [0..<0 + length (subscribers d)]"
      unfolding notifySubscribers_def by blast
    show ?thesis
      using es ns by (simp add: t new_events_def calls_of_append)
  qed
  have fail_case: "calls_of (new_events w (tick srv d w)) = []
        \<and> last (trace (tick srv d w)) = ConsoleError ''Polling error:'' error"
    if f: "fst ?g = Inl error"
  proof -
    have t: "tick srv d w = console_error ''Polling error:'' error (snd ?g)"
      using f by (simp add: tick_def case_prod_beta)
    show ?thesis
      using es by (simp add: t console_error_def new_events_def calls_of_append)
  qed
  from notify_calls [of w d state] ok_case fail_case tick_timers [of srv d w] show ?thesis
    by blast
qed

theorem tick_notifies_every_subscriber_witness:
  "fst (getCurrentState (\<lambda>n r. Inr (json_response (JNum 7)))
          (dash_process (subscribe (\<lambda>s. None)
             (subscribe (\<lambda>s. Some (Error ''boom'')) (new_dashboard local_client ''P''))))
          fresh_world) = Inr (JNum 7)
   \<and> calls_of (new_events fresh_world
        (tick (\<lambda>n r. Inr (json_response (JNum 7)))
           (subscribe (\<lambda>s. None)
              (subscribe (\<lambda>s. Some (Error ''boom'')) (new_dashboard local_client ''P'')))
           fresh_world))
       = [(0, JNum 7), (1, JNum 7)]
   \<and> fst (getCurrentState (\<lambda>n r. Inl (TypeError ''fetch failed''))
          (dash_process (subscribe (\<lambda>s. None) (new_dashboard local_client ''P'')))
          fresh_world) = Inl (TypeError ''fetch failed'')
   \<and> last (trace (tick (\<lambda>n r. Inl (TypeError ''fetch failed''))
          (subscribe (\<lambda>s. None) (new_dashboard local_client ''P'')) fresh_world))
       = ConsoleError ''Polling error:'' (TypeError ''fetch failed'')"
proof -
  let ?d = "subscribe (\<lambda>s. None)
              (subscribe (\<lambda>s. Some (Error ''boom'')) (new_dashboard local_client ''P''))"
  let ?d' = "subscribe (\<lambda>s. None) (new_dashboard local_client ''P'')"
  have g: "fst (getCurrentState (\<lambda>n r. Inr (json_response (JNum 7))) (dash_process ?d)
             fresh_world) = Inr (JNum 7)"
    by (simp add: getCurrentState_def get_result settles_to_def json_response_def ok_def)
  have n: "length (subscribers ?d) = 2"
    by (simp add: subscribe_def new_dashboard_def)
  have f: "fst (getCurrentState (\<lambda>n r. Inl (TypeError ''fetch failed'')) (dash_process ?d')
             fresh_world) = Inl (TypeError ''fetch failed'')"
    by (simp add: getCurrentState_def get_result settles_to_def)
  have two: "[0..<2] = [0, Suc 0]"
    by (simp add: upt_conv_Cons)
  from tick_notifies_every_subscriber
      [of fresh_world ?d "JNum 7" "\<lambda>n r. Inr (json_response (JNum 7))"] g n two
  have "calls_of (new_events fresh_world (tick (\<lambda>n r. Inr (json_response (JNum 7))) ?d
          fresh_world)) = [(0, JNum 7), (1, JNum 7)]"
    by simp
  moreover
  from tick_notifies_every_subscriber
      [of fresh_world ?d' _ "\<lambda>n r. Inl (TypeError ''fetch failed'')" "TypeError ''fetch failed''"] f
  have "last (trace (tick (\<lambda>n r. Inl (TypeError ''fetch failed'')) ?d' fresh_world))
       = ConsoleError ''Polling error:'' (TypeError ''fetch failed'')"
    by blast
  ultimately show ?thesis using g f by blast
qed

lemma startPolling_eq:
  "startPolling interval (d, w) =
     (d\<lparr>pollingInterval := Some (next_timer w)\<rparr>,
      w\<lparr>timers := (case pollingInterval d of None \<Rightarrow> timers w | Some h \<Rightarrow> (timers w)(h := None))
                    (next_timer w \<mapsto> (case interval of None \<Rightarrow> 5000 | Some ms \<Rightarrow> ms)),
        next_timer := Suc (next_timer w)\<rparr>)"
  by (simp add: startPolling_def setInterval_def clearInterval_def split: option.splits)

lemma engine_inv_start:
  assumes fresh0: "handles_fresh w0" and inv: "engine_inv w0 (d, w)"
  shows "engine_inv w0 (startPolling interval (d, w))"
proof -
  from inv have fresh: "handles_fresh w" and le: "next_timer w0 \<le> next_timer w"
    and sub: "dom (timers w0) \<subseteq> dom (timers w)"
    and own: "own_timers w0 w = set_option (pollingInterval d)"
    by (simp_all add: engine_inv_def)
  have new0: "next_timer w \<notin> dom (timers w0)"
  proof
    assume "next_timer w \<in> dom (timers w0)"
    with fresh0 have "next_timer w < next_timer w0"
      unfolding handles_fresh_def by blast
    with le show False by simp
  qed
  show ?thesis
  proof (cases "pollingInterval d")
    case None
    with own have "dom (timers w) - dom (timers w0) = {}" by (simp add: own_timers_def)
    with None fresh le sub new0 show ?thesis
      by (auto simp: startPolling_eq engine_inv_def handles_fresh_def own_timers_def less_Suc_eq)
  next
    case (Some h)
    with own have o: "dom (timers w) - dom (timers w0) = {h}" by (simp add: own_timers_def)
    then have "h \<notin> dom (timers w0)" by blast
    with Some fresh le sub new0 o show ?thesis
      by (auto simp: startPolling_eq engine_inv_def handles_fresh_def own_timers_def less_Suc_eq)
  qed
qed

lemma engine_inv_stop:
  assumes inv: "engine_inv w0 (d, w)"
  shows "engine_inv w0 (stopPolling (d, w))"
proof (cases "pollingInterval d")
  case None
  with inv show ?thesis by (simp add: stopPolling_def)
next
  case (Some h)
  from inv have fresh: "handles_fresh w" and le: "next_timer w0 \<le> next_timer w"
    and sub: "dom (timers w0) \<subseteq> dom (timers w)"
    and own: "own_timers w0 w = set_option (pollingInterval d)"
    by (simp_all add: engine_inv_def)
  from own Some have o: "dom (timers w) - dom (timers w0) = {h}" by (simp add: own_timers_def)
  then have "h \<notin> dom (timers w0)" by blast
  with Some fresh le sub o show ?thesis
    by (auto simp: stopPolling_def clearInterval_def engine_inv_def handles_fresh_def own_timers_def)
qed

lemma engine_inv_step:
  assumes "handles_fresh w0" "engine_inv w0 dw"
  shows "engine_inv w0 (run_op op dw)"
proof (cases dw)
  case (Pair d w)
  show ?thesis
  proof (cases op)
    case (Start interval)
    with assms Pair show ?thesis by (simp add: engine_inv_start)
  next
    case Stop
    with assms Pair show ?thesis by (simp add: engine_inv_stop)
  next
    case (Subscribe cb)
    with assms Pair show ?thesis by (simp add: engine_inv_def subscribe_def)
  next
    case (Tick srv)
    with assms Pair show ?thesis
      by (simp add: engine_inv_def handles_fresh_def own_timers_def tick_timers)
  qed
qed

lemma engine_inv_run:
  assumes "handles_fresh w0" "engine_inv w0 dw"
  shows "engine_inv w0 (run_ops ops dw)"
  using assms(2) unfolding run_ops_def
  by (induction ops arbitrary: dw) (simp_all add: engine_inv_step [OF assms(1)])

lemma engine_inv_init: "handles_fresh w0 \<Longrightarrow> engine_inv w0 (new_dashboard c pid, w0)"
  by (simp add: engine_inv_def new_dashboard_def own_timers_def)

text \<open>
  C7. After any sequence of \<^verbatim>\<open>startPolling\<close>, \<^verbatim>\<open>stopPolling\<close>, \<^verbatim>\<open>subscribe\<close> and
  ticks on a new dashboard, the timers the dashboard has started and not cleared are
  exactly the handle in \<^verbatim>\<open>pollingInterval\<close>, so at most one. \<^verbatim>\<open>startPolling\<close> in any
  such state clears the handle it holds and leaves the new timer as the only one;
  \<^verbatim>\<open>stopPolling\<close> leaves none, and changes nothing when there is no handle.
\<close>

theorem at_most_one_timer:
  assumes fresh0: "handles_fresh w0"
    and run: "run_ops ops (new_dashboard c pid, w0) = (d, w)"
  shows "own_timers w0 w = set_option (pollingInterval d)
     \<and> card (own_timers w0 w) \<le> 1
     \<and> pollingInterval (fst (startPolling interval (d, w))) = Some (next_timer w)
     \<and> own_timers w0 (snd (startPolling interval (d, w))) = {next_timer w}
     \<and> (\<forall>h. pollingInterval d = Some h \<longrightarrow>
           timers (snd (startPolling interval (d, w))) h = None)
     \<and> pollingInterval (fst (stopPolling (d, w))) = None
     \<and> own_timers w0 (snd (stopPolling (d, w))) = {}
     \<and> (pollingInterval d = None \<longrightarrow> stopPolling (d, w) = (d, w))"
proof -
  have inv: "engine_inv w0 (d, w)"
    using engine_inv_run [OF fresh0 engine_inv_init [OF fresh0, of c pid], of ops] run by simp
  then have own: "own_timers w0 w = set_option (pollingInterval d)"
    and fresh: "handles_fresh w"
    by (simp_all add: engine_inv_def)
  have one: "card (own_timers w0 w) \<le> 1"
    unfolding own by (cases "pollingInterval d") simp_all
  obtain d1 w1 where s1: "startPolling interval (d, w) = (d1, w1)"
    by (cases "startPolling interval (d, w)")
  from engine_inv_start [OF fresh0 inv, of interval] s1
  have "own_timers w0 w1 = set_option (pollingInterval d1)"
    by (simp add: engine_inv_def)
  moreover from s1 have "pollingInterval d1 = Some (next_timer w)"
    by (auto simp: startPolling_eq)
  ultimately have start: "pollingInterval (fst (startPolling interval (d, w))) = Some (next_timer w)
     \<and> own_timers w0 (snd (startPolling interval (d, w))) = {next_timer w}"
    using s1 by simp
  have cleared: "timers (snd (startPolling interval (d, w))) h = None"
    if h: "pollingInterval d = Some h" for h
  proof -
    from own h have "h \<in> dom (timers w)"
      by (auto simp: own_timers_def)
    with fresh have "h < next_timer w"
      unfolding handles_fresh_def by blast
    with h show ?thesis
      by (simp add: startPolling_eq)
  qed
  obtain d2 w2 where s2: "stopPolling (d, w) = (d2, w2)"
    by (cases "stopPolling (d, w)")
  from engine_inv_stop [OF inv] s2
  have "own_timers w0 w2 = set_option (pollingInterval d2)"
    by (simp add: engine_inv_def)
  moreover from s2 have "pollingInterval d2 = None"
    by (auto simp: stopPolling_def split: option.splits)
  ultimately have stop: "pollingInterval (fst (stopPolling (d, w))) = None
     \<and> own_timers w0 (snd (stopPolling (d, w))) = {}"
    using s2 by simp
  have idle: "pollingInterval d = None \<longrightarrow> stopPolling (d, w) = (d, w)"
    by (simp add: stopPolling_def)
  from own one start cleared stop idle show ?thesis by blast
qed

theorem at_most_one_timer_witness:
  "handles_fresh busy_world
   \<and> own_timers busy_world
       (snd (run_ops [Start (Some 1000), Start (Some 1000)]
               (new_dashboard local_client ''P'', busy_world)))
      = {3}
   \<and> own_timers busy_world
       (snd (run_ops [Stop, Start None, Stop, Stop]
               (new_dashboard local_client ''P'', busy_world)))
      = {}"
proof -
  have f: "handles_fresh busy_world"
    by (simp add: handles_fresh_def busy_world_def)
  obtain d w where r: "run_ops [Start (Some 1000), Start (Some 1000)]
      (new_dashboard local_client ''P'', busy_world) = (d, w)"
    by (cases "run_ops [Start (Some 1000), Start (Some 1000)]
      (new_dashboard local_client ''P'', busy_world)")
  have h: "pollingInterval d = Some 3"
    using r by (auto simp: run_ops_def startPolling_eq new_dashboard_def busy_world_def)
  obtain d' w' where r': "run_ops [Stop, Start None, Stop, Stop]
      (new_dashboard local_client ''P'', busy_world) = (d', w')"
    by (cases "run_ops [Stop, Start None, Stop, Stop]
      (new_dashboard local_client ''P'', busy_world)")
  have h': "pollingInterval d' = None"
    using r'
    by (auto simp: run_ops_def startPolling_eq stopPolling_def new_dashboard_def busy_world_def)
  from at_most_one_timer [OF f r] h at_most_one_timer [OF f r'] h' f show ?thesis
    by (simp add: r r')
qed


section \<open>The dashboard data\<close>

lemma get_finish_trace:
  "\<exists>es. trace (snd (get_finish c path options fetched w)) = trace w @ es"
  by (auto simp: get_finish_def response_json_def response_text_def
      console_error_def Let_def split: sum.splits option.splits prod.splits)

text \<open>
  \<^verbatim>\<open>getDashboardData\<close> in terms of what the three requests settle to: the first three
  effects are the three requests, and the result is that of \<^verbatim>\<open>Promise.all\<close>.
\<close>

lemma getDashboardData_unfold:
  fixes srv d w
  defines "p \<equiv> dash_process d"
  defines "c \<equiv> pc_client p"
  defines "q1 \<equiv> get_request c (basePath p @ ''/now'') no_options"
  defines "q2 \<equiv> get_request c (basePath p @ ''/schedule'') no_options"
  defines "q3 \<equiv> get_request c (basePath p @ ''/compute/cache'') no_options"
  defines "r1 \<equiv> settles_to (srv (fetch_count w) q1)"
  defines "r2 \<equiv> settles_to (srv (fetch_count w + 1) q2)"
  defines "r3 \<equiv> settles_to (srv (fetch_count w + 2) q3)"
  shows "fst (getDashboardData srv schedule_first now d w) =
      (case promise_all3 schedule_first r1 r2 (case r3 of Inl e \<Rightarrow> JNull | Inr v \<Rightarrow> v) of
         Inr (currentState, schedule, cache) \<Rightarrow>
           Inr \<lparr>dd_state = currentState, dd_schedule = schedule, dd_cache = cache,
                dd_timestamp = now\<rparr>
       | Inl error \<Rightarrow> Inl error)"
    and "take 3 (new_events w (snd (getDashboardData srv schedule_first now d w)))
      = [Fetch q1, Fetch q2, Fetch q3]"
proof -
  let ?w1 = "emit (Fetch q1) w"
  let ?w2 = "emit (Fetch q2) ?w1"
  let ?w3 = "emit (Fetch q3) ?w2"
  let ?f1 = "srv (fetch_count w) q1"
  let ?f2 = "srv (fetch_count w + 1) q2"
  let ?f3 = "srv (fetch_count w + 2) q3"
  let ?g1 = "get_finish c (basePath p @ ''/now'') no_options ?f1 ?w3"
  let ?g2 = "get_finish c (basePath p @ ''/schedule'') no_options ?f2 (snd ?g1)"
  let ?g3 = "get_finish c (basePath p @ ''/compute/cache'') no_options ?f3 (snd ?g2)"
  have cp: "cache_path p [] = basePath p @ ''/compute/cache''"
    by (simp add: cache_path_def)
  have unf: "getDashboardData srv schedule_first now d w =
      (case promise_all3 schedule_first (fst ?g1) (fst ?g2)
              (case fst ?g3 of Inl e \<Rightarrow> JNull | Inr v \<Rightarrow> v) of
         Inr (currentState, schedule, cache) \<Rightarrow>
           (Inr \<lparr>dd_state = currentState, dd_schedule = schedule, dd_cache = cache,
                 dd_timestamp = now\<rparr>, snd ?g3)
       | Inl error \<Rightarrow> (Inl error, console_error ''Dashboard data fetch error:'' error (snd ?g3)))"
    unfolding getDashboardData_def Let_def fetch_eq cp case_prod_beta fst_conv snd_conv
      p_def [symmetric] c_def [symmetric] q1_def [symmetric] q2_def [symmetric] q3_def [symmetric]
    by (simp add: p_def [symmetric] c_def [symmetric] q1_def [symmetric] q2_def [symmetric]
        q3_def [symmetric] cong: sum.case_cong)
  show "fst (getDashboardData srv schedule_first now d w) =
      (case promise_all3 schedule_first r1 r2 (case r3 of Inl e \<Rightarrow> JNull | Inr v \<Rightarrow> v) of
         Inr (currentState, schedule, cache) \<Rightarrow>
           Inr \<lparr>dd_state = currentState, dd_schedule = schedule, dd_cache = cache,
                dd_timestamp = now\<rparr>
       | Inl error \<Rightarrow> Inl error)"
    unfolding unf get_finish_result r1_def r2_def r3_def
    by (simp split: sum.splits prod.splits)
  obtain e1 where e1: "trace (snd ?g1) = trace ?w3 @ e1"
    using get_finish_trace by blast
  obtain e2 where e2: "trace (snd ?g2) = trace (snd ?g1) @ e2"
    using get_finish_trace by blast
  obtain e3 where e3: "trace (snd ?g3) = trace (snd ?g2) @ e3"
    using get_finish_trace by blast
  have "\<exists>es. trace (snd (getDashboardData srv schedule_first now d w))
      = trace w @ [Fetch q1, Fetch q2, Fetch q3] @ es"
    unfolding unf using e1 e2 e3
    by (simp add: console_error_def split: sum.splits prod.splits)
  then show "take 3 (new_events w (snd (getDashboardData srv schedule_first now d w)))
      = [Fetch q1, Fetch q2, Fetch q3]"
    by (auto simp: new_events_def)
qed

text \<open>
  C6. \<^verbatim>\<open>getDashboardData\<close> issues the three requests (live state, schedule, cache)
  before it handles any response, whatever the responses are. When the first two
  succeed, it succeeds with their values in \<^verbatim>\<open>state\<close> and \<^verbatim>\<open>schedule\<close>, and with
  \<^verbatim>\<open>cache\<close> the cache's value, or \<^verbatim>\<open>null\<close> when the cache request failed. When the
  live-state request or the schedule request fails, it fails, with the error of the one
  that failed (of the one that settled first, when both failed).
\<close>

theorem getDashboardData_partial_failure:
  assumes "p = dash_process d" and "c = pc_client p"
    and "r1 = settles_to (srv (fetch_count w)
                 (get_request c (basePath p @ ''/now'') no_options))"
    and "r2 = settles_to (srv (fetch_count w + 1)
                 (get_request c (basePath p @ ''/schedule'') no_options))"
    and "r3 = settles_to (srv (fetch_count w + 2)
                 (get_request c (basePath p @ ''/compute/cache'') no_options))"
  shows "take 3 (new_events w (snd (getDashboardData srv schedule_first now d w)))
           = [Fetch (get_request c (basePath p @ ''/now'') no_options),
              Fetch (get_request c (basePath p @ ''/schedule'') no_options),
              Fetch (get_request c (basePath p @ ''/compute/cache'') no_options)]
     \<and> (\<forall>s l e. r1 = Inr s \<and> r2 = Inr l \<and> r3 = Inl e \<longrightarrow>
           fst (getDashboardData srv schedule_first now d w)
             = Inr \<lparr>dd_state = s, dd_schedule = l, dd_cache = JNull, dd_timestamp = now\<rparr>)
     \<and> (\<forall>s l v. r1 = Inr s \<and> r2 = Inr l \<and> r3 = Inr v \<longrightarrow>
           fst (getDashboardData srv schedule_first now d w)
             = Inr \<lparr>dd_state = s, dd_schedule = l, dd_cache = v, dd_timestamp = now\<rparr>)
     \<and> (\<forall>e l. r1 = Inl e \<and> r2 = Inr l \<longrightarrow>
           fst (getDashboardData srv schedule_first now d w) = Inl e)
     \<and> (\<forall>s e. r1 = Inr s \<and> r2 = Inl e \<longrightarrow>
           fst (getDashboardData srv schedule_first now d w) = Inl e)
     \<and> (\<forall>e1 e2. r1 = Inl e1 \<and> r2 = Inl e2 \<longrightarrow>
           fst (getDashboardData srv schedule_first now d w)
             = Inl (if schedule_first then e2 else e1))"
proof -
  have res: "fst (getDashboardData srv schedule_first now d w) =
      (case promise_all3 schedule_first r1 r2 (case r3 of Inl e \<Rightarrow> JNull | Inr v \<Rightarrow> v) of
         Inr (currentState, schedule, cache) \<Rightarrow>
           Inr \<lparr>dd_state = currentState, dd_schedule = schedule, dd_cache = cache,
                dd_timestamp = now\<rparr>
       | Inl error \<Rightarrow> Inl error)"
    unfolding assms by (rule getDashboardData_unfold(1))
  have reqs: "take 3 (new_events w (snd (getDashboardData srv schedule_first now d w)))
           = [Fetch (get_request c (basePath p @ ''/now'') no_options),
              Fetch (get_request c (basePath p @ ''/schedule'') no_options),
              Fetch (get_request c (basePath p @ ''/compute/cache'') no_options)]"
    unfolding assms by (rule getDashboardData_unfold(2))
  have "\<forall>s l e. r1 = Inr s \<and> r2 = Inr l \<and> r3 = Inl e \<longrightarrow>
           fst (getDashboardData srv schedule_first now d w)
             = Inr \<lparr>dd_state = s, dd_schedule = l, dd_cache = JNull, dd_timestamp = now\<rparr>"
    unfolding res by (simp add: promise_all3_def)
  moreover have "\<forall>s l v. r1 = Inr s \<and> r2 = Inr l \<and> r3 = Inr v \<longrightarrow>
           fst (getDashboardData srv schedule_first now d w)
             = Inr \<lparr>dd_state = s, dd_schedule = l, dd_cache = v, dd_timestamp = now\<rparr>"
    unfolding res by (simp add: promise_all3_def)
  moreover have "\<forall>e l. r1 = Inl e \<and> r2 = Inr l \<longrightarrow>
           fst (getDashboardData srv schedule_first now d w) = Inl e"
    unfolding res by (simp add: promise_all3_def)
  moreover have "\<forall>s e. r1 = Inr s \<and> r2 = Inl e \<longrightarrow>
           fst (getDashboardData srv schedule_first now d w) = Inl e"
    unfolding res by (simp add: promise_all3_def)
  moreover have "\<forall>e1 e2. r1 = Inl e1 \<and> r2 = Inl e2 \<longrightarrow>
           fst (getDashboardData srv schedule_first now d w)
             = Inl (if schedule_first then e2 else e1)"
    unfolding res by (simp add: promise_all3_def)
  ultimately show ?thesis using reqs by blast
qed

theorem getDashboardData_partial_failure_witness:
  "fst (getDashboardData
          (\<lambda>n r. if n = 2 then Inr not_found else Inr (json_response (JNum (of_nat n))))
          False ''2025-01-01T00:00:00.000Z'' (new_dashboard local_client ''P'') fresh_world)
     = Inr \<lparr>dd_state = JNum 0, dd_schedule = JNum 1, dd_cache = JNull,
            dd_timestamp = ''2025-01-01T00:00:00.000Z''\<rparr>
   \<and> fst (getDashboardData
          (\<lambda>n r. if n = 1 then Inr not_found else Inr (json_response (JNum (of_nat n))))
          False ''2025-01-01T00:00:00.000Z'' (new_dashboard local_client ''P'') fresh_world)
     = Inl (Error ''HTTP 404: Not Found'')"
proof -
  have n404: "show_nat 404 = ''404''"
    by code_simp
  have fc: "fetch_count fresh_world = 0"
    by (simp add: fetch_count_def fresh_world_def)
  from getDashboardData_partial_failure [OF refl refl refl refl refl,
      where srv = "\<lambda>n r. if n = 2 then Inr not_found else Inr (json_response (JNum (of_nat n)))"
        and w = fresh_world and d = "new_dashboard local_client ''P''"
        and schedule_first = False and now = "''2025-01-01T00:00:00.000Z''"]
  have a: "fst (getDashboardData
          (\<lambda>n r. if n = 2 then Inr not_found else Inr (json_response (JNum (of_nat n))))
          False ''2025-01-01T00:00:00.000Z'' (new_dashboard local_client ''P'') fresh_world)
     = Inr \<lparr>dd_state = JNum 0, dd_schedule = JNum 1, dd_cache = JNull,
            dd_timestamp = ''2025-01-01T00:00:00.000Z''\<rparr>"
    by (simp add: fc settles_to_def json_response_def not_found_def ok_def n404)
  from getDashboardData_partial_failure [OF refl refl refl refl refl,
      where srv = "\<lambda>n r. if n = 1 then Inr not_found else Inr (json_response (JNum (of_nat n)))"
        and w = fresh_world and d = "new_dashboard local_client ''P''"
        and schedule_first = False and now = "''2025-01-01T00:00:00.000Z''"]
  have b: "fst (getDashboardData
          (\<lambda>n r. if n = 1 then Inr not_found else Inr (json_response (JNum (of_nat n))))
          False ''2025-01-01T00:00:00.000Z'' (new_dashboard local_client ''P'') fresh_world)
     = Inl (Error ''HTTP 404: Not Found'')"
    by (simp add: fc settles_to_def json_response_def not_found_def ok_def n404)
  from a b show ?thesis by blast
qed

end
